theory Spec2Isabelle
  imports Complex_Main "HOL-Library.Sublist"
begin

section \<open>Python values used by the harness\<close>

text \<open>
  An exception is its class name and the text that \<open>str(exc)\<close> yields. Every class
  that occurs below derives from \<open>Exception\<close>. Python's \<open>float\<close> is idealised as
  \<open>real\<close>, its unbounded \<open>int\<close> is \<open>int\<close>, and a \<open>str\<close> is a list of code points;
  where case and whitespace matter the code points are those below 256 (\<open>char\<close>),
  except in the keyword matcher, which is modelled for every type of code points.
  A value has the type that the annotation of its variable, field or key declares; a
  dictionary key that may be absent is an \<open>option\<close>.
\<close>

datatype exn = Exn string string

fun exc_str :: "exn \<Rightarrow> string" where
  "exc_str (Exn cls msg) = msg"

fun exc_class :: "exn \<Rightarrow> string" where
  "exc_class (Exn cls msg) = cls"

text \<open>\<open>xs[i]\<close>: a negative index counts from the end, an index out of range raises.\<close>

definition py_index :: "'a list \<Rightarrow> int \<Rightarrow> exn + 'a" where
  "py_index xs i =
     (if 0 \<le> i \<and> i < int (length xs) then Inr (xs ! nat i)
      else if i < 0 \<and> - int (length xs) \<le> i then Inr (xs ! nat (int (length xs) + i))
      else Inl (Exn ''IndexError'' ''list index out of range''))"

text \<open>\<open>enumerate(xs, start=k)\<close>.\<close>

fun py_enumerate :: "int \<Rightarrow> 'a list \<Rightarrow> (int \<times> 'a) list" where
  "py_enumerate k [] = []"
| "py_enumerate k (x # xs) = (k, x) # py_enumerate (k + 1) xs"

text \<open>\<open>str.isspace\<close> on one code point below 256.\<close>

definition py_isspace :: "char \<Rightarrow> bool" where
  "py_isspace c =
     (let n = (of_char c :: nat)
      in (9 \<le> n \<and> n \<le> 13) \<or> (28 \<le> n \<and> n \<le> 32) \<or> n = 133 \<or> n = 160)"

text \<open>\<open>str.lower\<close> on one code point below 256: A-Z and the Latin-1 capitals.\<close>

definition lower_char :: "char \<Rightarrow> char" where
  "lower_char c =
     (let n = (of_char c :: nat)
      in if (65 \<le> n \<and> n \<le> 90) \<or> (192 \<le> n \<and> n \<le> 222 \<and> n \<noteq> 215)
         then char_of (n + 32) else c)"

definition py_lower :: "string \<Rightarrow> string" where
  "py_lower s = map lower_char s"

text \<open>
  \<open>str.strip()\<close>: leading and trailing whitespace removed, for a given test of what
  is whitespace.
\<close>

definition strip_with :: "('a \<Rightarrow> bool) \<Rightarrow> 'a list \<Rightarrow> 'a list" where
  "strip_with isspace s = rev (dropWhile isspace (rev (dropWhile isspace s)))"

definition py_strip :: "string \<Rightarrow> string" where
  "py_strip s = strip_with py_isspace s"

text \<open>\<open>str.split()\<close>: the maximal runs of non-whitespace, in order.\<close>

fun split_ws :: "string \<Rightarrow> string \<Rightarrow> string list" where
  "split_ws cur [] = (if cur = [] then [] else [cur])"
| "split_ws cur (c # cs) =
     (if py_isspace c
      then (if cur = [] then split_ws [] cs else cur # split_ws [] cs)
      else split_ws (cur @ [c]) cs)"

definition py_split :: "string \<Rightarrow> string list" where
  "py_split s = split_ws [] s"

text \<open>\<open>str.split(sep)\<close> for a one-character separator: empty pieces are kept.\<close>

fun split_on :: "'a \<Rightarrow> 'a list \<Rightarrow> 'a list \<Rightarrow> 'a list list" where
  "split_on sep cur [] = [cur]"
| "split_on sep cur (c # cs) =
     (if c = sep then cur # split_on sep [] cs else split_on sep (cur @ [c]) cs)"

definition py_split_on :: "'a \<Rightarrow> 'a list \<Rightarrow> 'a list list" where
  "py_split_on sep s = split_on sep [] s"

text \<open>\<open>sep.join(pieces)\<close>.\<close>

fun py_join :: "'a list \<Rightarrow> 'a list list \<Rightarrow> 'a list" where
  "py_join sep [] = []"
| "py_join sep [p] = p"
| "py_join sep (p # q # ps) = p @ sep @ py_join sep (q # ps)"

text \<open>\<open>needle in haystack\<close> on strings.\<close>

fun py_contains :: "'a list \<Rightarrow> 'a list \<Rightarrow> bool" where
  "py_contains needle [] = (needle = [])"
| "py_contains needle (c # cs) = (prefix needle (c # cs) \<or> py_contains needle cs)"

text \<open>\<open>str.startswith\<close>.\<close>

definition py_startswith :: "string \<Rightarrow> string \<Rightarrow> bool" where
  "py_startswith s p = prefix p s"

section \<open>scoring.py\<close>

text \<open>
  The body of the inner \<open>for j, hyp_token in enumerate(hyp, start=1)\<close> loop of
  \<open>_levenshtein_distance\<close>, with the three row reads as Python performs them.
\<close>

fun inner_loop :: "'a \<Rightarrow> int list \<Rightarrow> int list \<Rightarrow> (int \<times> 'a) list \<Rightarrow> exn + int list" where
  "inner_loop ref_token previous_row current_row [] = Inr current_row"
| "inner_loop ref_token previous_row current_row ((j, hyp_token) # rest) =
     (case py_index current_row (j - 1) of Inl e \<Rightarrow> Inl e | Inr a \<Rightarrow>
     (case py_index previous_row j of Inl e \<Rightarrow> Inl e | Inr b \<Rightarrow>
     (case py_index previous_row (j - 1) of Inl e \<Rightarrow> Inl e | Inr c \<Rightarrow>
        (let insertions = a + 1;
             deletions = b + 1;
             substitutions = c + (if ref_token \<noteq> hyp_token then 1 else 0)
         in inner_loop ref_token previous_row
              (current_row @ [min insertions (min deletions substitutions)]) rest))))"

text \<open>The outer \<open>for i, ref_token in enumerate(ref, start=1)\<close> loop.\<close>

fun outer_loop :: "'a list \<Rightarrow> int list \<Rightarrow> (int \<times> 'a) list \<Rightarrow> exn + int list" where
  "outer_loop hyp previous_row [] = Inr previous_row"
| "outer_loop hyp previous_row ((i, ref_token) # rest) =
     (case inner_loop ref_token previous_row [i] (py_enumerate 1 hyp) of
        Inl e \<Rightarrow> Inl e
      | Inr current_row \<Rightarrow> outer_loop hyp current_row rest)"

text \<open>\<open>_levenshtein_distance(ref, hyp)\<close>; the first row is \<open>list(range(len(hyp) + 1))\<close>.\<close>

definition levenshtein_distance :: "'a list \<Rightarrow> 'a list \<Rightarrow> exn + int" where
  "levenshtein_distance ref hyp =
     (case outer_loop hyp [0..int (length hyp)] (py_enumerate 1 ref) of
        Inl e \<Rightarrow> Inl e
      | Inr previous_row \<Rightarrow> py_index previous_row (- 1))"

text \<open>\<open>cer(ref, hyp)\<close> over the code points of the two strings.\<close>

definition cer :: "'a list \<Rightarrow> 'a list \<Rightarrow> exn + real" where
  "cer ref hyp =
     (if ref = [] then Inr (if hyp = [] then 0 else 1)
      else (case levenshtein_distance ref hyp of
              Inl e \<Rightarrow> Inl e
            | Inr distance \<Rightarrow> Inr (real_of_int distance / real (length ref))))"

text \<open>\<open>wer(ref, hyp)\<close> over the whitespace-separated words.\<close>

definition wer :: "string \<Rightarrow> string \<Rightarrow> exn + real" where
  "wer ref hyp =
     (let ref_tokens = py_split ref; hyp_tokens = py_split hyp
      in if ref_tokens = [] then Inr (if hyp_tokens = [] then 0 else 1)
         else (case levenshtein_distance ref_tokens hyp_tokens of
                 Inl e \<Rightarrow> Inl e
               | Inr distance \<Rightarrow> Inr (real_of_int distance / real (length ref_tokens))))"

text \<open>
  \<open>check_answer_with_keywords\<close> works on strings of any code points. What it uses of
  Unicode is taken as given: which code points \<open>str.strip\<close> counts as whitespace, the
  lower-case form \<open>str.lower\<close> gives a string, and the comma.
\<close>

record 'c unicode_tables =
  u_isspace :: "'c \<Rightarrow> bool"
  u_lower :: "'c list \<Rightarrow> 'c list"
  u_comma :: 'c

text \<open>The tables for the code points below 256.\<close>

definition latin1 :: "char unicode_tables" where
  "latin1 = \<lparr> u_isspace = py_isspace, u_lower = py_lower, u_comma = CHR '','' \<rparr>"

text \<open>
  Tables for code points as numbers (\<open>ord\<close>): the whitespace of \<open>str.isspace\<close> in full,
  and \<open>str.lower\<close> for the strings made of ASCII and of code points that have no case,
  the CJK ideographs among them. Other cased letters are outside this table: it leaves
  them as they are.
\<close>

definition uni_isspace :: "int \<Rightarrow> bool" where
  "uni_isspace c \<longleftrightarrow>
     (9 \<le> c \<and> c \<le> 13) \<or> (28 \<le> c \<and> c \<le> 32) \<or> c = 133 \<or> c = 160 \<or> c = 5760
     \<or> (8192 \<le> c \<and> c \<le> 8202) \<or> c = 8232 \<or> c = 8233 \<or> c = 8239 \<or> c = 8287
     \<or> c = 12288"

definition ascii_lower :: "int list \<Rightarrow> int list" where
  "ascii_lower s = map (\<lambda>c. if 65 \<le> c \<and> c \<le> 90 then c + 32 else c) s"

definition ascii_cjk :: "int unicode_tables" where
  "ascii_cjk = \<lparr> u_isspace = uni_isspace, u_lower = ascii_lower, u_comma = 44 \<rparr>"

text \<open>
  The \<open>keywords\<close> argument of \<open>check_answer_with_keywords\<close> is a comma-separated
  string or an iterable of strings.
\<close>

datatype 'c keyword_spec = KwStr "'c list" | KwIter "'c list list"

text \<open>The list \<open>items\<close> that the function builds from its second argument.\<close>

fun keyword_items :: "'c unicode_tables \<Rightarrow> 'c keyword_spec \<Rightarrow> 'c list list" where
  "keyword_items U (KwStr s) =
     map (strip_with (u_isspace U))
       (filter (\<lambda>item. strip_with (u_isspace U) item \<noteq> []) (py_split_on (u_comma U) s))"
| "keyword_items U (KwIter its) =
     map (strip_with (u_isspace U))
       (filter (\<lambda>item. item \<noteq> [] \<and> strip_with (u_isspace U) item \<noteq> []) its)"

definition check_answer_with_keywords ::
  "'c unicode_tables \<Rightarrow> 'c list \<Rightarrow> 'c keyword_spec \<Rightarrow> bool \<times> 'c list list" where
  "check_answer_with_keywords U answer kws =
     (let items = keyword_items U kws
      in if items = [] then (False, [])
         else (let normalized_answer = u_lower U answer;
                   missing = filter (\<lambda>keyword. \<not> py_contains (u_lower U keyword) normalized_answer) items
               in (missing = [], missing)))"

section \<open>\<open>text_utils.py\<close>\<close>

text \<open>\<open>_WHITESPACE_RE.sub(" ", s)\<close>: every maximal run of whitespace becomes one space.\<close>

fun sub_whitespace :: "bool \<Rightarrow> string \<Rightarrow> string" where
  "sub_whitespace in_run [] = []"
| "sub_whitespace in_run (c # cs) =
     (if py_isspace c
      then (if in_run then sub_whitespace True cs else CHR '' '' # sub_whitespace True cs)
      else c # sub_whitespace False cs)"

definition normalize_text :: "string option \<Rightarrow> string" where
  "normalize_text text =
     (case text of
        None \<Rightarrow> []
      | Some t \<Rightarrow> if t = [] then []
                  else (let lowered = py_lower (py_strip t) in sub_whitespace False lowered))"

section \<open>The collaborators\<close>

text \<open>
  What \<open>json.loads\<close> hands back for the judge's reply: a JSON object, of which only the
  three keys of \<open>EvaluationResult\<close> are read (\<open>None\<close> is an absent key, a present value has
  the type the \<open>TypedDict\<close> declares), or a value of another Python type, named.
\<close>

record judge_object =
  jo_is_correct :: "bool option"
  jo_score :: "int option"
  jo_reason :: "string option"

datatype parsed = JsonObject judge_object | JsonOther string

text \<open>The dictionary that \<open>ask_chatbase\<close> returns (its \<open>raw\<close> payload is left out).\<close>

record chatbase_response =
  answer_text :: string
  conversation_id :: "string option"

text \<open>
  Everything outside the repository that one call of \<open>process_item\<close> meets: the
  environment variables, the readings of the monotonic clock in the order they are taken,
  the file system, and the outcome of each call to a service, an exception or a value.
  \<open>TAIWAN_ANIMALS\<close> comes from the module \<open>constants\<close>.
\<close>

record world =
  getenv :: "string \<Rightarrow> string option"
  perf_counter :: "nat \<Rightarrow> real"
  md5_hexdigest :: "string \<Rightarrow> string"
  path_exists :: "string \<Rightarrow> bool"
  generate_tts_for_text :: "string \<Rightarrow> string \<Rightarrow> string \<Rightarrow> string \<Rightarrow> string option \<Rightarrow> exn option"
  gcs_upload_file :: "string \<Rightarrow> string \<Rightarrow> string \<Rightarrow> exn + string"
  transcribe_file :: "string \<Rightarrow> string \<Rightarrow> string list \<Rightarrow> string \<Rightarrow> exn + string"
  ask_chatbase :: "string \<Rightarrow> exn + chatbase_response"
  chat_completions_create :: "string \<Rightarrow> exn + string option"
  json_loads :: "string \<Rightarrow> exn + parsed"
  TAIWAN_ANIMALS :: "string list"

section \<open>config.py\<close>

definition sq :: string where
  "sq = [CHR 0x27]"

definition dq :: string where
  "dq = [CHR 0x22]"

definition require_env :: "world \<Rightarrow> string \<Rightarrow> exn + string" where
  "require_env w var_name =
     (case getenv w var_name of
        None \<Rightarrow> Inl (Exn ''ConfigError''
                 (''Environment variable '' @ sq @ var_name @ sq @ '' is required but was not provided.''))
      | Some v \<Rightarrow>
          if py_strip v = []
          then Inl (Exn ''ConfigError''
                 (''Environment variable '' @ sq @ var_name @ sq @ '' is required but was not provided.''))
          else Inr (py_strip v))"

section \<open>\<open>llm_client.py\<close>\<close>

text \<open>
  The dictionary that \<open>evaluate_answer_with_llm\<close> returns; a field is \<open>None\<close> when the
  dictionary has no such key.
\<close>

record EvaluationResult =
  er_is_correct :: "bool option"
  er_score :: "int option"
  er_reason :: "string option"

definition judge_prompt :: "string \<Rightarrow> string \<Rightarrow> string \<Rightarrow> string" where
  "judge_prompt question reference answer = py_join [CHR 0x0A]
     ['''',
      ''    You are an expert judge evaluating the correctness of an AI assistant'' @ sq @ ''s response.'',
      [],
      ''    Question: '' @ question,
      ''    Standard Answer (Ground Truth): '' @ reference,
      ''    AI Answer: '' @ answer,
      [],
      ''    Task:'',
      ''    1. Determine if the AI Answer is factually consistent with the Standard Answer.'',
      ''    2. Assign a score from 0 to 100.'',
      ''       - 100: Perfect match in meaning and key details.'',
      ''       - 80-99: Correct meaning, minor missing details or slight phrasing differences.'',
      ''       - 60-79: Mostly correct, but misses some important details or includes minor inaccuracies.'',
      ''       - 40-59: Partially correct, but misses key information or has noticeable errors.'',
      ''       - 0-39: Incorrect, irrelevant, or hallucinated.'',
      [],
      ''    Output Format:'',
      ''    Return ONLY a JSON object with the following format:'',
      ''    {'',
      ''        '' @ dq @ ''is_correct'' @ dq @ '': true/false,  // true if score >= 60'',
      ''        '' @ dq @ ''score'' @ dq @ '': <int 0-100>,'',
      ''        '' @ dq @ ''reason'' @ dq @ '': '' @ dq @ ''Brief explanation of your judgment'' @ dq,
      ''    }'',
      ''    '']"

text \<open>
  The body of the \<open>try\<close> block: the request, the check of the content, the parse, and the
  three \<open>result.get(key, default)\<close>; \<open>get\<close> on a value that is not a dictionary raises.
\<close>

definition judge_call :: "world \<Rightarrow> string \<Rightarrow> exn + EvaluationResult" where
  "judge_call w prompt =
     (case chat_completions_create w prompt of
        Inl e \<Rightarrow> Inl e
      | Inr None \<Rightarrow> Inl (Exn ''ValueError'' ''Empty response from OpenAI'')
      | Inr (Some content) \<Rightarrow>
          if content = [] then Inl (Exn ''ValueError'' ''Empty response from OpenAI'')
          else (case json_loads w content of
                  Inl e \<Rightarrow> Inl e
                | Inr (JsonOther ty) \<Rightarrow>
                    Inl (Exn ''AttributeError''
                           (sq @ ty @ sq @ '' object has no attribute '' @ sq @ ''get'' @ sq))
                | Inr (JsonObject result) \<Rightarrow>
                    Inr \<lparr> er_is_correct =
                            Some (case jo_is_correct result of None \<Rightarrow> False | Some b \<Rightarrow> b),
                          er_score = Some (case jo_score result of None \<Rightarrow> 0 | Some n \<Rightarrow> n),
                          er_reason = Some (case jo_reason result of
                                              None \<Rightarrow> ''No reason provided'' | Some r \<Rightarrow> r) \<rparr>))"

text \<open>
  \<open>evaluate_answer_with_llm\<close>. The client is built before the \<open>try\<close>, so a missing
  \<open>OPENAI_API_KEY\<close> is raised to the caller; the \<open>except\<close> branch returns a dictionary
  with the two keys \<open>is_correct\<close> and \<open>reason\<close>.
\<close>

definition evaluate_answer_with_llm ::
  "world \<Rightarrow> string \<Rightarrow> string \<Rightarrow> string \<Rightarrow> exn + EvaluationResult" where
  "evaluate_answer_with_llm w question reference answer =
     (case require_env w ''OPENAI_API_KEY'' of
        Inl e \<Rightarrow> Inl e
      | Inr api_key \<Rightarrow>
          (case judge_call w (judge_prompt question reference answer) of
             Inr result \<Rightarrow> Inr result
           | Inl exc \<Rightarrow>
               Inr \<lparr> er_is_correct = Some False,
                     er_score = None,
                     er_reason = Some (''Evaluation failed: '' @ exc_str exc) \<rparr>))"

section \<open>pipeline.py\<close>

record PipelineResult =
  id' :: int
  question :: string
  reference_answer :: string
  audio_path :: "string option"
  tts_latency :: real
  stt_text :: string
  stt_latency :: real
  ai_answer :: string
  chatbase_latency :: real
  score :: int
  reason :: string
  eval_latency :: real
  total_latency :: real
  status :: string
  error_msg :: "string option"

text \<open>The constructor call \<open>PipelineResult(id=..., question=..., reference_answer=...)\<close>.\<close>

definition new_result :: "int \<Rightarrow> string \<Rightarrow> string \<Rightarrow> PipelineResult" where
  "new_result item_id q r =
     \<lparr> id' = item_id, question = q, reference_answer = r, audio_path = None,
       tts_latency = 0, stt_text = [], stt_latency = 0, ai_answer = [],
       chatbase_latency = 0, score = 0, reason = [], eval_latency = 0,
       total_latency = 0, status = ''pending'', error_msg = None \<rparr>"

text \<open>\<open>str(n)\<close> for an integer.\<close>

fun nat_digits :: "nat \<Rightarrow> string" where
  "nat_digits n =
     (if n < 10 then [''0123456789'' ! n]
      else nat_digits (n div 10) @ [''0123456789'' ! (n mod 10)])"

definition py_str_int :: "int \<Rightarrow> string" where
  "py_str_int i = (if i < 0 then CHR ''-'' # nat_digits (nat (- i)) else nat_digits (nat i))"

definition wav_filename :: "world \<Rightarrow> int \<Rightarrow> string \<Rightarrow> string" where
  "wav_filename w item_id q =
     (let q_hash = take 8 (md5_hexdigest w q)
      in ''q'' @ py_str_int item_id @ ''_'' @ q_hash @ ''.wav'')"

text \<open>
  \<open>pathlib.Path\<close> on a POSIX system. A path is a root (\<open>/\<close>, \<open>//\<close> when the string
  starts with exactly two slashes, or none) and its components: the pieces between the
  slashes, the empty ones and the single dots left out. \<open>str\<close> of a path puts slashes
  between the components again; with no root and no component it is \<open>.\<close>.
\<close>

definition path_root :: "string \<Rightarrow> string" where
  "path_root p =
     (if py_startswith p ''//'' \<and> \<not> py_startswith p ''///'' then ''//''
      else if py_startswith p ''/'' then ''/''
      else [])"

definition path_parts :: "string \<Rightarrow> string list" where
  "path_parts p = filter (\<lambda>c. c \<noteq> [] \<and> c \<noteq> ''.'') (py_split_on CHR ''/'' p)"

definition path_format :: "string \<Rightarrow> string list \<Rightarrow> string" where
  "path_format anchor parts =
     (if anchor = [] \<and> parts = [] then ''.'' else anchor @ py_join ''/'' parts)"

text \<open>\<open>str(Path(p))\<close>.\<close>

definition path_str :: "string \<Rightarrow> string" where
  "path_str p = path_format (path_root p) (path_parts p)"

text \<open>\<open>str(Path(a) / b)\<close>: an absolute \<open>b\<close> replaces \<open>a\<close>.\<close>

definition path_div :: "string \<Rightarrow> string \<Rightarrow> string" where
  "path_div a b =
     (if py_startswith b ''/'' then path_str b
      else path_format (path_root a) (path_parts a @ path_parts b))"

text \<open>\<open>str(wav_path)\<close>, where \<open>wav_path = self.output_dir / wav_filename\<close>.\<close>

definition wav_path :: "world \<Rightarrow> string \<Rightarrow> int \<Rightarrow> string \<Rightarrow> string" where
  "wav_path w output_dir item_id q = path_div output_dir (wav_filename w item_id q)"

text \<open>
  A stage works on the result under construction and on the number of clock readings
  taken so far; it ends normally or with the exception that left it, and in both cases
  with the result as its assignments made it.
\<close>

type_synonym pstate = "PipelineResult \<times> nat"

text \<open>Stage 1: the synthesis, skipped when the file is already there.\<close>

definition tts_call :: "world \<Rightarrow> string \<Rightarrow> int \<Rightarrow> string \<Rightarrow> string \<Rightarrow> exn option" where
  "tts_call w output_dir item_id q language_code =
     (if \<not> path_exists w (wav_path w output_dir item_id q)
      then (let voice = (if py_startswith (py_lower language_code) ''en''
                         then Some ''en-US-AvaNeural'' else None)
            in generate_tts_for_text w q (wav_filename w item_id q) (path_str output_dir)
                 language_code voice)
      else None)"

text \<open>The upload: on any exception the local path is kept.\<close>

definition upload_audio :: "world \<Rightarrow> string \<Rightarrow> int \<Rightarrow> string \<Rightarrow> string" where
  "upload_audio w output_dir item_id q =
     (case getenv w ''GCS_BUCKET_NAME'' of
        None \<Rightarrow> wav_path w output_dir item_id q
      | Some gcs_bucket \<Rightarrow>
          if gcs_bucket = [] then wav_path w output_dir item_id q
          else (case gcs_upload_file w gcs_bucket (wav_path w output_dir item_id q)
                       (''audio/'' @ wav_filename w item_id q) of
                  Inr public_url \<Rightarrow> public_url
                | Inl e \<Rightarrow> wav_path w output_dir item_id q))"

definition stage_tts ::
  "world \<Rightarrow> string \<Rightarrow> int \<Rightarrow> string \<Rightarrow> string \<Rightarrow> pstate \<Rightarrow> exn option \<times> pstate" where
  "stage_tts w output_dir item_id q language_code st =
     (let result = fst st; k = snd st; t0 = perf_counter w k
      in case tts_call w output_dir item_id q language_code of
           Some e \<Rightarrow> (Some e, (result, k + 1))
         | None \<Rightarrow>
             (None, (result\<lparr> tts_latency := perf_counter w (k + 1) - t0,
                              audio_path := Some (upload_audio w output_dir item_id q) \<rparr>,
                     k + 2)))"

text \<open>Stage 2: the transcription of the local file, then \<open>normalize_text\<close>.\<close>

definition stt_call ::
  "world \<Rightarrow> string \<Rightarrow> int \<Rightarrow> string \<Rightarrow> string list option \<Rightarrow> string \<Rightarrow> string \<Rightarrow> exn + string" where
  "stt_call w output_dir item_id q phrase_hints stt_provider language_code =
     (let hints = (case phrase_hints of Some h \<Rightarrow> h | None \<Rightarrow> TAIWAN_ANIMALS w)
      in transcribe_file w (wav_path w output_dir item_id q) language_code hints stt_provider)"

definition stage_stt ::
  "world \<Rightarrow> string \<Rightarrow> int \<Rightarrow> string \<Rightarrow> string list option \<Rightarrow> string \<Rightarrow> string \<Rightarrow> pstate
     \<Rightarrow> exn option \<times> pstate" where
  "stage_stt w output_dir item_id q phrase_hints stt_provider language_code st =
     (let result = fst st; k = snd st; t0 = perf_counter w k
      in case stt_call w output_dir item_id q phrase_hints stt_provider language_code of
           Inl e \<Rightarrow> (Some e, (result, k + 1))
         | Inr stt_raw \<Rightarrow>
             (None, (result\<lparr> stt_text := normalize_text (Some stt_raw),
                              stt_latency := perf_counter w (k + 1) - t0 \<rparr>,
                     k + 2)))"

text \<open>Stage 3: the question to the chatbot, with the language instruction appended.\<close>

definition query_text :: "string \<Rightarrow> string \<Rightarrow> string" where
  "query_text stt_provider text =
     (if stt_provider = ''openai''
      then text @ '';Please answer in the language: en-US''
      else text @ '' Please answer in the language: zh-TW'')"

definition stage_chatbase :: "world \<Rightarrow> string \<Rightarrow> pstate \<Rightarrow> exn option \<times> pstate" where
  "stage_chatbase w stt_provider st =
     (let result = fst st; k = snd st; t0 = perf_counter w k
      in case ask_chatbase w (query_text stt_provider (stt_text result)) of
           Inl e \<Rightarrow> (Some e, (result, k + 1))
         | Inr cb_resp \<Rightarrow>
             (None, (result\<lparr> ai_answer := answer_text cb_resp,
                              chatbase_latency := perf_counter w (k + 1) - t0 \<rparr>,
                     k + 2)))"

text \<open>
  Stage 4: the \<open>if reference_answer:\<close> block. \<open>eval_res["score"]\<close> and
  \<open>eval_res["reason"]\<close> raise \<open>KeyError\<close> on an absent key, the first before any
  assignment, the second after \<open>score\<close> is assigned.
\<close>

definition key_error :: "string \<Rightarrow> exn" where
  "key_error k = Exn ''KeyError'' (sq @ k @ sq)"

definition eval_block :: "world \<Rightarrow> string \<Rightarrow> string \<Rightarrow> PipelineResult \<Rightarrow> exn option \<times> PipelineResult" where
  "eval_block w q ref result =
     (if ref \<noteq> []
      then (case evaluate_answer_with_llm w q ref (ai_answer result) of
              Inl e \<Rightarrow> (Some e, result)
            | Inr eval_res \<Rightarrow>
                (case er_score eval_res of
                   None \<Rightarrow> (Some (key_error ''score''), result)
                 | Some sc \<Rightarrow>
                     (case er_reason eval_res of
                        None \<Rightarrow> (Some (key_error ''reason''), result\<lparr> score := sc \<rparr>)
                      | Some rs \<Rightarrow> (None, result\<lparr> score := sc, reason := rs \<rparr>))))
      else (None, result\<lparr> reason := ''No reference answer provided'' \<rparr>))"

definition stage_eval :: "world \<Rightarrow> string \<Rightarrow> string \<Rightarrow> pstate \<Rightarrow> exn option \<times> pstate" where
  "stage_eval w q ref st =
     (let result = fst st; k = snd st; t0 = perf_counter w k
      in case eval_block w q ref result of
           (Some e, result) \<Rightarrow> (Some e, (result, k + 1))
         | (None, result) \<Rightarrow>
             (None, (result\<lparr> eval_latency := perf_counter w (k + 1) - t0,
                              status := ''success'' \<rparr>,
                     k + 2)))"

text \<open>A statement sequence inside the \<open>try\<close>: the second part runs if the first one ends normally.\<close>

definition and_then ::
  "(pstate \<Rightarrow> exn option \<times> pstate) \<Rightarrow> (pstate \<Rightarrow> exn option \<times> pstate)
     \<Rightarrow> pstate \<Rightarrow> exn option \<times> pstate" where
  "and_then f g st = (case f st of (Some e, st') \<Rightarrow> (Some e, st') | (None, st') \<Rightarrow> g st')"

definition try_body ::
  "world \<Rightarrow> string \<Rightarrow> int \<Rightarrow> string \<Rightarrow> string \<Rightarrow> string list option \<Rightarrow> string \<Rightarrow> string \<Rightarrow> pstate
     \<Rightarrow> exn option \<times> pstate" where
  "try_body w output_dir item_id q ref phrase_hints stt_provider language_code =
     and_then (stage_tts w output_dir item_id q language_code)
    (and_then (stage_stt w output_dir item_id q phrase_hints stt_provider language_code)
    (and_then (stage_chatbase w stt_provider)
              (stage_eval w q ref)))"

text \<open>
  \<open>ProcessingPipeline.process_item\<close>; \<open>output_dir\<close> is the attribute of \<open>self\<close>. The
  \<open>except Exception\<close> branch sets \<open>status\<close> and \<open>error_msg\<close>; the total is taken after
  the \<open>try\<close> statement on either path.
\<close>

definition process_item ::
  "world \<Rightarrow> string \<Rightarrow> int \<Rightarrow> string \<Rightarrow> string \<Rightarrow> string list option \<Rightarrow> string \<Rightarrow> string
     \<Rightarrow> PipelineResult" where
  "process_item w output_dir item_id q ref phrase_hints stt_provider language_code =
     (let result = new_result item_id q ref;
          start_total = perf_counter w 0;
          out = try_body w output_dir item_id q ref phrase_hints stt_provider language_code (result, 1);
          result = (case fst out of
                      None \<Rightarrow> fst (snd out)
                    | Some e \<Rightarrow> (fst (snd out))\<lparr> status := ''error'', error_msg := Some (exc_str e) \<rparr>)
      in result\<lparr> total_latency := perf_counter w (snd (snd out)) - start_total \<rparr>)"

text \<open>
  The exception, if any, with which stage 4 ends for a given answer of the chatbot: the one
  \<open>evaluate_answer_with_llm\<close> raises, or the \<open>KeyError\<close> of a read of its result.
\<close>

definition stage4_exception :: "world \<Rightarrow> string \<Rightarrow> string \<Rightarrow> string \<Rightarrow> exn option" where
  "stage4_exception w q ref answer =
     (if ref = [] then None
      else (case evaluate_answer_with_llm w q ref answer of
              Inl e \<Rightarrow> Some e
            | Inr eval_res \<Rightarrow>
                if er_score eval_res = None then Some (key_error ''score'')
                else if er_reason eval_res = None then Some (key_error ''reason'')
                else None))"

text \<open>The result as it stands when the first three stages have ended normally.\<close>

definition after_chatbase ::
  "world \<Rightarrow> string \<Rightarrow> int \<Rightarrow> string \<Rightarrow> string \<Rightarrow> chatbase_response \<Rightarrow> nat \<Rightarrow> PipelineResult \<Rightarrow> PipelineResult" where
  "after_chatbase w od i q stt_raw cb k r0 =
     r0\<lparr> tts_latency := perf_counter w (k + 1) - perf_counter w k,
         audio_path := Some (upload_audio w od i q),
         stt_text := normalize_text (Some stt_raw),
         stt_latency := perf_counter w (k + 3) - perf_counter w (k + 2),
         ai_answer := answer_text cb,
         chatbase_latency := perf_counter w (k + 5) - perf_counter w (k + 4) \<rparr>"

section \<open>server.py\<close>

text \<open>
  An element of the \<open>items\<close> list: a dictionary read at the keys \<open>id\<close>, \<open>question\<close> and
  \<open>reference_answer\<close>; \<open>None\<close> is an absent key.
\<close>

record test_item =
  item_id :: "int option"
  item_question :: "string option"
  item_reference_answer :: "string option"

text \<open>
  What \<open>receive_json\<close> delivers: a dictionary, of which the key \<open>items\<close> is read
  (\<open>None\<close> when absent), or a value of another Python type, named.
\<close>

datatype received = RecvDict "test_item list option" | RecvOther string

text \<open>The two dictionaries of an update message, and the three kinds of message sent.\<close>

record result_json =
  r_id :: int
  r_audio_url :: "string option"
  r_question :: string
  r_stt_text :: string
  r_ai_answer :: string
  r_score :: int
  r_latency :: real
  r_tts :: real
  r_stt :: real
  r_chatbase :: real
  r_eval :: real
  r_status :: string
  r_error :: "string option"

record stats_json =
  s_processed :: int
  s_total :: int
  s_avg_score :: real
  s_avg_latency :: real

datatype message = MsgUpdate result_json stats_json | MsgComplete | MsgError string

text \<open>
  The connection as the endpoint meets it: the outcome of \<open>accept\<close>, of \<open>receive_json\<close>,
  and of each \<open>send_json\<close>, which may depend on the messages sent before.
\<close>

record socket =
  ws_accept :: "exn option"
  ws_receive_json :: "exn + received"
  ws_send_json :: "message list \<Rightarrow> message \<Rightarrow> exn option"

text \<open>\<open>Path(p).name\<close>: the last component of the path.\<close>

definition path_name :: "string \<Rightarrow> string" where
  "path_name p =
     (case filter (\<lambda>c. c \<noteq> [] \<and> c \<noteq> ''.'') (py_split_on CHR ''/'' p) of
        [] \<Rightarrow> []
      | c # cs \<Rightarrow> last (c # cs))"

definition audio_url_of :: "PipelineResult \<Rightarrow> string option" where
  "audio_url_of res =
     (case audio_path res of
        None \<Rightarrow> None
      | Some p \<Rightarrow> if p = [] then None
                  else if py_startswith p ''http'' then Some p
                  else Some (''/audio/'' @ path_name p))"

definition result_json_of :: "PipelineResult \<Rightarrow> result_json" where
  "result_json_of res =
     \<lparr> r_id = id' res, r_audio_url = audio_url_of res, r_question = question res,
       r_stt_text = stt_text res, r_ai_answer = ai_answer res, r_score = score res,
       r_latency = total_latency res, r_tts = tts_latency res, r_stt = stt_latency res,
       r_chatbase = chatbase_latency res, r_eval = eval_latency res,
       r_status = status res, r_error = error_msg res \<rparr>"

text \<open>The \<open>stats\<close> dictionary, with its two guarded divisions.\<close>

definition make_stats :: "int \<Rightarrow> int \<Rightarrow> int \<Rightarrow> real \<Rightarrow> stats_json" where
  "make_stats n_processed n_total sum_score sum_latency =
     \<lparr> s_processed = n_processed, s_total = n_total,
       s_avg_score = (if n_processed \<noteq> 0 then real_of_int sum_score / real_of_int n_processed else 0),
       s_avg_latency = (if n_processed \<noteq> 0 then sum_latency / real_of_int n_processed else 0) \<rparr>"

text \<open>
  The variables of the loop, the global list \<open>current_results\<close>, and the messages that
  have gone out.
\<close>

record loop_state =
  processed :: int
  total_score :: int
  total_latency_sum :: real
  current_results :: "PipelineResult list"
  sent :: "message list"

text \<open>
  The \<open>for item in items\<close> loop. \<open>worlds k\<close> is what the \<open>k\<close>-th call of
  \<open>process_item\<close> meets; the pipeline was built with \<open>output_dir="audio"\<close>. The loop ends
  normally, or with the exception of a failed key read or a failed send.
\<close>

fun item_loop ::
  "socket \<Rightarrow> (nat \<Rightarrow> world) \<Rightarrow> string list \<Rightarrow> string \<Rightarrow> int \<Rightarrow> nat \<Rightarrow> test_item list
     \<Rightarrow> loop_state \<Rightarrow> exn option \<times> loop_state" where
  "item_loop sock worlds hints provider n_total k [] st = (None, st)"
| "item_loop sock worlds hints provider n_total k (item # rest) st =
     (let language_code = (if provider = ''openai'' then ''en-US'' else ''zh-TW'')
      in case item_id item of None \<Rightarrow> (Some (key_error ''id''), st) | Some iid \<Rightarrow>
        (case item_question item of None \<Rightarrow> (Some (key_error ''question''), st) | Some q \<Rightarrow>
        (case item_reference_answer item of
           None \<Rightarrow> (Some (key_error ''reference_answer''), st)
         | Some ref \<Rightarrow>
            (let res = process_item (worlds k) ''audio'' iid q ref (Some hints) provider language_code;
                 st1 = st\<lparr> processed := processed st + 1,
                           total_score := (if status res = ''success''
                                           then total_score st + score res else total_score st),
                           total_latency_sum := (if status res = ''success''
                                           then total_latency_sum st + total_latency res
                                           else total_latency_sum st),
                           current_results := current_results st @ [res] \<rparr>;
                 msg = MsgUpdate (result_json_of res)
                         (make_stats (processed st1) n_total (total_score st1) (total_latency_sum st1))
             in case ws_send_json sock (sent st1) msg of
                  Some e \<Rightarrow> (Some e, st1)
                | None \<Rightarrow> item_loop sock worlds hints provider n_total (k + 1) rest
                            (st1\<lparr> sent := sent st1 @ [msg] \<rparr>)))))"

text \<open>One \<open>send_json\<close> inside the \<open>try\<close>.\<close>

definition send_msg :: "socket \<Rightarrow> message \<Rightarrow> loop_state \<Rightarrow> exn option \<times> loop_state" where
  "send_msg sock msg st =
     (case ws_send_json sock (sent st) msg of
        Some e \<Rightarrow> (Some e, st)
      | None \<Rightarrow> (None, st\<lparr> sent := sent st @ [msg] \<rparr>))"

text \<open>The body of the \<open>try\<close> of \<open>websocket_endpoint\<close>.\<close>

definition endpoint_body ::
  "socket \<Rightarrow> (nat \<Rightarrow> world) \<Rightarrow> string list \<Rightarrow> string \<Rightarrow> loop_state \<Rightarrow> exn option \<times> loop_state" where
  "endpoint_body sock worlds hints provider st =
     (case ws_receive_json sock of
        Inl e \<Rightarrow> (Some e, st)
      | Inr (RecvOther ty) \<Rightarrow>
          (Some (Exn ''AttributeError''
                   (sq @ ty @ sq @ '' object has no attribute '' @ sq @ ''get'' @ sq)), st)
      | Inr (RecvDict its) \<Rightarrow>
          (let items = (case its of None \<Rightarrow> [] | Some l \<Rightarrow> l)
           in if items = [] then send_msg sock (MsgError ''No items to process'') st
              else (case item_loop sock worlds hints provider (int (length items)) 0 items st of
                      (Some e, st') \<Rightarrow> (Some e, st')
                    | (None, st') \<Rightarrow> send_msg sock MsgComplete st')))"

text \<open>
  What a run of the endpoint leaves: the messages sent, the global list, and the exception
  that escaped it, if one did.
\<close>

record endpoint_run =
  run_sent :: "message list"
  run_results :: "PipelineResult list"
  run_raised :: "exn option"

text \<open>
  \<open>websocket_endpoint\<close>, with the global variables \<open>current_phrase_hints\<close>,
  \<open>current_stt_provider\<close> and \<open>current_results\<close> as arguments. A
  \<open>WebSocketDisconnect\<close> is logged; any other exception is reported to the client by one
  more \<open>send_json\<close>, outside the \<open>try\<close>.
\<close>

definition websocket_endpoint ::
  "socket \<Rightarrow> (nat \<Rightarrow> world) \<Rightarrow> string list \<Rightarrow> string \<Rightarrow> PipelineResult list \<Rightarrow> endpoint_run" where
  "websocket_endpoint sock worlds hints provider results0 =
     (case ws_accept sock of
        Some e \<Rightarrow> \<lparr> run_sent = [], run_results = results0, run_raised = Some e \<rparr>
      | None \<Rightarrow>
          (let st0 = \<lparr> processed = 0, total_score = 0, total_latency_sum = 0,
                       current_results = results0, sent = [] \<rparr>
           in case endpoint_body sock worlds hints provider st0 of
                (None, st) \<Rightarrow>
                  \<lparr> run_sent = sent st, run_results = current_results st, run_raised = None \<rparr>
              | (Some e, st) \<Rightarrow>
                  if exc_class e = ''WebSocketDisconnect''
                  then \<lparr> run_sent = sent st, run_results = current_results st, run_raised = None \<rparr>
                  else (case ws_send_json sock (sent st) (MsgError (exc_str e)) of
                          None \<Rightarrow> \<lparr> run_sent = sent st @ [MsgError (exc_str e)],
                                     run_results = current_results st, run_raised = None \<rparr>
                        | Some e' \<Rightarrow> \<lparr> run_sent = sent st, run_results = current_results st,
                                        run_raised = Some e' \<rparr>)))"

section \<open>The run of the endpoint, described\<close>

text \<open>
  The result of the \<open>k\<close>-th item, the list of all of them, and the two sums over the
  results whose status is \<open>"success"\<close>.
\<close>

definition item_result ::
  "(nat \<Rightarrow> world) \<Rightarrow> string list \<Rightarrow> string \<Rightarrow> nat \<Rightarrow> test_item \<Rightarrow> PipelineResult" where
  "item_result worlds hints provider k item =
     process_item (worlds k) ''audio'' (the (item_id item)) (the (item_question item))
       (the (item_reference_answer item)) (Some hints) provider
       (if provider = ''openai'' then ''en-US'' else ''zh-TW'')"

definition item_results ::
  "(nat \<Rightarrow> world) \<Rightarrow> string list \<Rightarrow> string \<Rightarrow> test_item list \<Rightarrow> PipelineResult list" where
  "item_results worlds hints provider items =
     map (\<lambda>k. item_result worlds hints provider k (items ! k)) [0..<length items]"

definition success_score_sum :: "PipelineResult list \<Rightarrow> int" where
  "success_score_sum rs = sum_list (map score (filter (\<lambda>r. status r = ''success'') rs))"

definition success_latency_sum :: "PipelineResult list \<Rightarrow> real" where
  "success_latency_sum rs = sum_list (map total_latency (filter (\<lambda>r. status r = ''success'') rs))"

text \<open>
  The averages as the specification words them, to compare with what the endpoint sends:
  the means of \<open>score\<close> and of \<open>total_latency\<close> over the results whose status is
  \<open>"success"\<close>, and 0 when there is none.
\<close>

definition claimed_avg_score :: "PipelineResult list \<Rightarrow> real" where
  "claimed_avg_score rs =
     (let ok = filter (\<lambda>r. status r = ''success'') rs
      in if ok = [] then 0 else real_of_int (sum_list (map score ok)) / real (length ok))"

definition claimed_avg_latency :: "PipelineResult list \<Rightarrow> real" where
  "claimed_avg_latency rs =
     (let ok = filter (\<lambda>r. status r = ''success'') rs
      in if ok = [] then 0 else sum_list (map total_latency ok) / real (length ok))"

text \<open>
  The update that follows item \<open>k\<close>: its result, and the statistics over the first
  \<open>k + 1\<close> results.
\<close>

definition update_message :: "int \<Rightarrow> PipelineResult list \<Rightarrow> nat \<Rightarrow> message" where
  "update_message n_total rs k =
     MsgUpdate (result_json_of (rs ! k))
       (make_stats (int (Suc k)) n_total (success_score_sum (take (Suc k) rs))
          (success_latency_sum (take (Suc k) rs)))"

text \<open>An item that has its three keys.\<close>

definition well_formed :: "test_item \<Rightarrow> bool" where
  "well_formed item \<longleftrightarrow>
     item_id item \<noteq> None \<and> item_question item \<noteq> None \<and> item_reference_answer item \<noteq> None"

text \<open>The variables of the loop when \<open>j\<close> items have been processed and reported.\<close>

definition loop_invariant ::
  "int \<Rightarrow> PipelineResult list \<Rightarrow> PipelineResult list \<Rightarrow> nat \<Rightarrow> loop_state" where
  "loop_invariant n_total results0 rs j =
     \<lparr> processed = int j, total_score = success_score_sum (take j rs),
       total_latency_sum = success_latency_sum (take j rs),
       current_results = results0 @ take j rs,
       sent = map (update_message n_total rs) [0..<j] \<rparr>"

text \<open>The kind of a message, and the two averages an update carries.\<close>

definition is_update :: "message \<Rightarrow> bool" where
  "is_update msg = (case msg of MsgUpdate rj st \<Rightarrow> True | _ \<Rightarrow> False)"

definition avg_score_of :: "message \<Rightarrow> real option" where
  "avg_score_of msg = (case msg of MsgUpdate rj st \<Rightarrow> Some (s_avg_score st) | _ \<Rightarrow> None)"

definition avg_latency_of :: "message \<Rightarrow> real option" where
  "avg_latency_of msg = (case msg of MsgUpdate rj st \<Rightarrow> Some (s_avg_latency st) | _ \<Rightarrow> None)"

section \<open>Some concrete worlds\<close>

text \<open>
  \<open>world_ok\<close>: every service answers, the judge replies with a full JSON object, the key
  of the judge is configured, no bucket is, and the clock reads 0, 1, 2, ... The other
  worlds differ from it in the one service named.
\<close>

definition judge_reply_text :: string where
  "judge_reply_text =
     ''{'' @ dq @ ''is_correct'' @ dq @ '': true, '' @ dq @ ''score'' @ dq @ '': 80, ''
       @ dq @ ''reason'' @ dq @ '': '' @ dq @ ''Matches the reference.'' @ dq @ ''}''"

definition world_ok :: world where
  "world_ok =
     \<lparr> getenv = (\<lambda>v. if v = ''OPENAI_API_KEY'' then Some ''sk-test'' else None),
       perf_counter = (\<lambda>k. real k),
       md5_hexdigest = (\<lambda>_. ''5d41402abc4b2a76b9719d911017c592''),
       path_exists = (\<lambda>_. False),
       generate_tts_for_text = (\<lambda>_ _ _ _ _. None),
       gcs_upload_file = (\<lambda>_ _ _. Inl (Exn ''ConfigError'' ''GCS_BUCKET_NAME environment variable is required'')),
       transcribe_file = (\<lambda>_ _ _ _. Inr ''What do lions eat''),
       ask_chatbase = (\<lambda>_. Inr \<lparr> answer_text = ''Lions eat meat.'', conversation_id = None \<rparr>),
       chat_completions_create = (\<lambda>_. Inr (Some judge_reply_text)),
       json_loads = (\<lambda>_. Inr (JsonObject \<lparr> jo_is_correct = Some True, jo_score = Some 80,
                                              jo_reason = Some ''Matches the reference.'' \<rparr>)),
       TAIWAN_ANIMALS = [] \<rparr>"

definition world_tts_fails :: world where
  "world_tts_fails =
     world_ok\<lparr> generate_tts_for_text :=
                 (\<lambda>_ _ _ _ _. Some (Exn ''RuntimeError'' ''Speech synthesis canceled'')) \<rparr>"

definition world_stt_fails :: world where
  "world_stt_fails =
     world_ok\<lparr> transcribe_file :=
                 (\<lambda>_ _ _ _. Inl (Exn ''RuntimeError'' ''Empty transcript returned for audio/q1_5d41402a.wav.'')) \<rparr>"

definition world_chatbase_fails :: world where
  "world_chatbase_fails =
     world_ok\<lparr> ask_chatbase :=
                 (\<lambda>_. Inl (Exn ''ChatbaseError'' ''Failed to parse Chatbase response as JSON'')) \<rparr>"

definition world_judge_fails :: world where
  "world_judge_fails =
     world_ok\<lparr> chat_completions_create :=
                 (\<lambda>_. Inl (Exn ''APIConnectionError'' ''Connection error.'')) \<rparr>"

definition world_empty_reply :: world where
  "world_empty_reply = world_ok\<lparr> chat_completions_create := (\<lambda>_. Inr None) \<rparr>"

definition world_malformed_reply :: world where
  "world_malformed_reply =
     world_ok\<lparr> chat_completions_create := (\<lambda>_. Inr (Some ''Sorry, I cannot'')),
                json_loads := (\<lambda>_. Inl (Exn ''JSONDecodeError''
                                 ''Expecting value: line 1 column 1 (char 0)'')) \<rparr>"

definition world_list_reply :: world where
  "world_list_reply =
     world_ok\<lparr> chat_completions_create := (\<lambda>_. Inr (Some ''[1, 2]'')),
                json_loads := (\<lambda>_. Inr (JsonOther ''list'')) \<rparr>"

definition world_missing_fields :: world where
  "world_missing_fields =
     world_ok\<lparr> chat_completions_create :=
                  (\<lambda>_. Inr (Some (''{'' @ dq @ ''is_correct'' @ dq @ '': true}''))),
                json_loads := (\<lambda>_. Inr (JsonObject \<lparr> jo_is_correct = Some True, jo_score = None,
                                                        jo_reason = None \<rparr>)) \<rparr>"

text \<open>
  A run of three items: the judge gives the first 80 and the second 100, the synthesis of
  the third fails; the connection takes every message.
\<close>

definition world_score_100 :: world where
  "world_score_100 =
     world_ok\<lparr> json_loads := (\<lambda>_. Inr (JsonObject \<lparr> jo_is_correct = Some True,
                                   jo_score = Some 100, jo_reason = Some ''Exact match.'' \<rparr>)) \<rparr>"

definition items3 :: "test_item list" where
  "items3 =
     [\<lparr> item_id = Some 1, item_question = Some ''What do lions eat?'',
        item_reference_answer = Some ''Meat'' \<rparr>,
      \<lparr> item_id = Some 2, item_question = Some ''What do pandas eat?'',
        item_reference_answer = Some ''Bamboo'' \<rparr>,
      \<lparr> item_id = Some 3, item_question = Some ''Where do koalas live?'',
        item_reference_answer = Some ''Australia'' \<rparr>]"

definition worlds3 :: "nat \<Rightarrow> world" where
  "worlds3 k = (if k = 0 then world_ok else if k = 1 then world_score_100 else world_tts_fails)"

definition socket_ok :: socket where
  "socket_ok = \<lparr> ws_accept = None, ws_receive_json = Inr (RecvDict (Some items3)),
                 ws_send_json = (\<lambda>_ _. None) \<rparr>"

section \<open>The edit distance of the specification\<close>

text \<open>
  The Levenshtein distance as the specification words it: the classic recurrence with unit
  cost for an insertion, a deletion and a substitution. This definition is independent of
  the row-by-row program above and is what the program is compared with.
\<close>

fun levenshtein_spec :: "'a list \<Rightarrow> 'a list \<Rightarrow> nat" where
  "levenshtein_spec [] ys = length ys"
| "levenshtein_spec (x # xs) [] = Suc (length xs)"
| "levenshtein_spec (x # xs) (y # ys) =
     min (Suc (levenshtein_spec (x # xs) ys))
         (min (Suc (levenshtein_spec xs (y # ys)))
              (levenshtein_spec xs ys + (if x \<noteq> y then 1 else 0)))"

text \<open>\<open>edits xs ys n\<close>: some script of unit-cost edits of total cost \<open>n\<close> turns \<open>xs\<close> into \<open>ys\<close>.\<close>

inductive edits :: "'a list \<Rightarrow> 'a list \<Rightarrow> nat \<Rightarrow> bool" where
  e_nil: "edits [] [] 0"
| e_del: "edits xs ys n \<Longrightarrow> edits (x # xs) ys (Suc n)"
| e_ins: "edits xs ys n \<Longrightarrow> edits xs (y # ys) (Suc n)"
| e_sub: "edits xs ys n \<Longrightarrow> edits (x # xs) (y # ys) (n + (if x \<noteq> y then 1 else 0))"

text \<open>Row \<open>r\<close> of the table: the distances from \<open>r\<close> to the prefixes of \<open>hyp\<close> up to length \<open>k\<close>.\<close>

definition dp_row :: "'a list \<Rightarrow> 'a list \<Rightarrow> nat \<Rightarrow> int list" where
  "dp_row r hyp k = map (\<lambda>j. int (levenshtein_spec r (take j hyp))) [0..<Suc k]"

section \<open>Properties of the edit distance\<close>

lemma lev_Nil2: "levenshtein_spec xs [] = length xs"
  by (cases xs) simp_all

lemma edits_Nil_left: "edits [] ys (length ys)"
  by (induction ys) (auto intro: edits.intros)

lemma edits_Nil_right: "edits xs [] (length xs)"
  by (induction xs) (auto intro: edits.intros)

lemma edits_lev: "edits xs ys (levenshtein_spec xs ys)"
proof (induction xs ys rule: levenshtein_spec.induct)
  case (1 ys)
  show ?case using edits_Nil_left by simp
next
  case (2 x xs)
  show ?case using edits_Nil_right[of "x # xs"] by simp
next
  case (3 x xs y ys)
  have a: "edits (x # xs) (y # ys) (Suc (levenshtein_spec (x # xs) ys))"
    using 3(1) by (rule e_ins)
  have b: "edits (x # xs) (y # ys) (Suc (levenshtein_spec xs (y # ys)))"
    using 3(2) by (rule e_del)
  have c: "edits (x # xs) (y # ys) (levenshtein_spec xs ys + (if x \<noteq> y then 1 else 0))"
    using 3(3) by (rule e_sub)
  show ?case using a b c by (simp add: min_def)
qed

lemma lev_del: "levenshtein_spec (x # xs) ys \<le> Suc (levenshtein_spec xs ys)"
  by (cases ys) (simp_all add: lev_Nil2)

lemma lev_ins: "levenshtein_spec xs (y # ys) \<le> Suc (levenshtein_spec xs ys)"
  by (cases xs) simp_all

text \<open>No edit script is cheaper than the recurrence: the recurrence is the minimum.\<close>

lemma lev_le_edits: "edits xs ys n \<Longrightarrow> levenshtein_spec xs ys \<le> n"
proof (induction rule: edits.induct)
  case e_nil
  show ?case by simp
next
  case (e_del xs ys n x)
  then show ?case using lev_del[of x xs ys] by simp
next
  case (e_ins xs ys n y)
  then show ?case using lev_ins[of xs y ys] by simp
next
  case (e_sub xs ys n x y)
  then show ?case by (auto simp: min_def)
qed

lemma edits_snoc_del: "edits xs ys n \<Longrightarrow> edits (xs @ [x]) ys (Suc n)"
proof (induction rule: edits.induct)
  case e_nil
  show ?case using e_del[OF edits.e_nil] by simp
next
  case (e_del xs ys n x')
  then show ?case by (auto intro: edits.e_del)
next
  case (e_ins xs ys n y')
  then show ?case by (auto intro: edits.e_ins)
next
  case (e_sub xs ys n x' y')
  from e_sub.IH
  have "edits (x' # (xs @ [x])) (y' # ys) (Suc n + (if x' \<noteq> y' then 1 else 0))"
    by (rule edits.e_sub)
  then show ?case by simp
qed

lemma edits_snoc_ins: "edits xs ys n \<Longrightarrow> edits xs (ys @ [y]) (Suc n)"
proof (induction rule: edits.induct)
  case e_nil
  show ?case using e_ins[OF edits.e_nil] by simp
next
  case (e_del xs ys n x')
  then show ?case by (auto intro: edits.e_del)
next
  case (e_ins xs ys n y')
  then show ?case by (auto intro: edits.e_ins)
next
  case (e_sub xs ys n x' y')
  from e_sub.IH
  have "edits (x' # xs) (y' # (ys @ [y])) (Suc n + (if x' \<noteq> y' then 1 else 0))"
    by (rule edits.e_sub)
  then show ?case by simp
qed

lemma edits_snoc_sub:
  "edits xs ys n \<Longrightarrow> edits (xs @ [x]) (ys @ [y]) (n + (if x \<noteq> y then 1 else 0))"
proof (induction rule: edits.induct)
  case e_nil
  show ?case using e_sub[OF edits.e_nil, of x y] by simp
next
  case (e_del xs ys n x')
  from e_del.IH
  have "edits (x' # (xs @ [x])) (ys @ [y]) (Suc (n + (if x \<noteq> y then 1 else 0)))"
    by (rule edits.e_del)
  then show ?case by simp
next
  case (e_ins xs ys n y')
  from e_ins.IH
  have "edits (xs @ [x]) (y' # (ys @ [y])) (Suc (n + (if x \<noteq> y then 1 else 0)))"
    by (rule edits.e_ins)
  then show ?case by simp
next
  case (e_sub xs ys n x' y')
  from e_sub.IH
  have "edits (x' # (xs @ [x])) (y' # (ys @ [y]))
          (n + (if x \<noteq> y then 1 else 0) + (if x' \<noteq> y' then 1 else 0))"
    by (rule edits.e_sub)
  then show ?case by (simp add: add.commute add.left_commute)
qed

lemma edits_rev: "edits xs ys n \<Longrightarrow> edits (rev xs) (rev ys) n"
proof (induction rule: edits.induct)
  case e_nil
  show ?case by (simp add: edits.e_nil)
next
  case (e_del xs ys n x)
  then show ?case by (simp add: edits_snoc_del)
next
  case (e_ins xs ys n y)
  then show ?case by (simp add: edits_snoc_ins)
next
  case (e_sub xs ys n x y)
  then show ?case using edits_snoc_sub[of "rev xs" "rev ys" n x y] by simp
qed

text \<open>The distance does not depend on the end from which the two sequences are read.\<close>

lemma lev_rev: "levenshtein_spec (rev xs) (rev ys) = levenshtein_spec xs ys"
proof (rule antisym)
  show "levenshtein_spec (rev xs) (rev ys) \<le> levenshtein_spec xs ys"
    by (rule lev_le_edits[OF edits_rev[OF edits_lev]])
  have "levenshtein_spec (rev (rev xs)) (rev (rev ys)) \<le> levenshtein_spec (rev xs) (rev ys)"
    by (rule lev_le_edits[OF edits_rev[OF edits_lev]])
  then show "levenshtein_spec xs ys \<le> levenshtein_spec (rev xs) (rev ys)" by simp
qed

lemma lev_sym: "levenshtein_spec xs ys = levenshtein_spec ys xs"
  by (induction xs ys rule: levenshtein_spec.induct) (auto simp: lev_Nil2 min_def)

lemma lev_eq_0_iff: "levenshtein_spec xs ys = 0 \<longleftrightarrow> xs = ys"
  by (induction xs ys rule: levenshtein_spec.induct) (auto simp: min_def)

text \<open>The recurrence on the last elements, which is the one the program's rows follow.\<close>

lemma lev_snoc:
  "levenshtein_spec (xs @ [x]) (ys @ [y]) =
     min (Suc (levenshtein_spec (xs @ [x]) ys))
         (min (Suc (levenshtein_spec xs (ys @ [y])))
              (levenshtein_spec xs ys + (if x \<noteq> y then 1 else 0)))"
proof -
  have "levenshtein_spec (xs @ [x]) (ys @ [y]) = levenshtein_spec (x # rev xs) (y # rev ys)"
    using lev_rev[of "xs @ [x]" "ys @ [y]"] by simp
  also have "\<dots> = min (Suc (levenshtein_spec (x # rev xs) (rev ys)))
         (min (Suc (levenshtein_spec (rev xs) (y # rev ys)))
              (levenshtein_spec (rev xs) (rev ys) + (if x \<noteq> y then 1 else 0)))"
    by simp
  also have "levenshtein_spec (x # rev xs) (rev ys) = levenshtein_spec (xs @ [x]) ys"
    using lev_rev[of "xs @ [x]" ys] by simp
  also have "levenshtein_spec (rev xs) (y # rev ys) = levenshtein_spec xs (ys @ [y])"
    using lev_rev[of xs "ys @ [y]"] by simp
  also have "levenshtein_spec (rev xs) (rev ys) = levenshtein_spec xs ys"
    by (rule lev_rev)
  finally show ?thesis .
qed

section \<open>The rows of \<open>_levenshtein_distance\<close>\<close>

lemma length_dp_row: "length (dp_row r hyp k) = Suc k"
  by (simp add: dp_row_def)

lemma nth_dp_row: "j \<le> k \<Longrightarrow> dp_row r hyp k ! j = int (levenshtein_spec r (take j hyp))"
  unfolding dp_row_def by (simp only: nth_map_upt length_upt diff_zero less_Suc_eq_le add_0)

lemma dp_row_Suc:
  "dp_row r hyp (Suc k) = dp_row r hyp k @ [int (levenshtein_spec r (take (Suc k) hyp))]"
  by (simp add: dp_row_def)

lemma py_index_nat: "j < length xs \<Longrightarrow> py_index xs (int j) = Inr (xs ! j)"
  by (simp add: py_index_def)

lemma py_index_last: "xs \<noteq> [] \<Longrightarrow> py_index xs (- 1) = Inr (xs ! (length xs - 1))"
  by (cases xs) (simp_all add: py_index_def)

text \<open>Every read of a row is in range, so no \<open>IndexError\<close> is raised.\<close>

lemma py_index_dp_row:
  "j \<le> k \<Longrightarrow> py_index (dp_row r hyp k) (int j) = Inr (int (levenshtein_spec r (take j hyp)))"
  using py_index_nat[of j "dp_row r hyp k"] nth_dp_row[of j k r hyp]
  by (simp add: length_dp_row)

lemma dp_cell:
  assumes "k < length hyp"
  shows "min (int (levenshtein_spec (r @ [x]) (take k hyp)) + 1)
           (min (int (levenshtein_spec r (take (Suc k) hyp)) + 1)
                (int (levenshtein_spec r (take k hyp)) + (if x \<noteq> hyp ! k then 1 else 0)))
         = int (levenshtein_spec (r @ [x]) (take (Suc k) hyp))"
proof -
  have t: "take (Suc k) hyp = take k hyp @ [hyp ! k]"
    using assms by (rule take_Suc_conv_app_nth)
  show ?thesis
    unfolding t lev_snoc[of r x "take k hyp" "hyp ! k"] by (simp add: min_def)
qed

lemma inner_loop_correct:
  assumes "k \<le> length hyp"
  shows "inner_loop x (dp_row r hyp (length hyp)) (dp_row (r @ [x]) hyp k)
           (py_enumerate (int k + 1) (drop k hyp))
         = Inr (dp_row (r @ [x]) hyp (length hyp))"
  using assms
proof (induction "length hyp - k" arbitrary: k)
  case 0
  then have "k = length hyp" by simp
  then show ?case by simp
next
  case (Suc d)
  then have klt: "k < length hyp" by simp
  have dr: "drop k hyp = hyp ! k # drop (Suc k) hyp"
    using klt by (simp add: Cons_nth_drop_Suc)
  have a: "py_index (dp_row (r @ [x]) hyp k) (int k)
             = Inr (int (levenshtein_spec (r @ [x]) (take k hyp)))"
    by (rule py_index_dp_row) simp
  have b: "py_index (dp_row r hyp (length hyp)) (int (Suc k))
             = Inr (int (levenshtein_spec r (take (Suc k) hyp)))"
    by (rule py_index_dp_row) (use klt in simp)
  have c: "py_index (dp_row r hyp (length hyp)) (int k)
             = Inr (int (levenshtein_spec r (take k hyp)))"
    by (rule py_index_dp_row) (use klt in simp)
  have i1: "int k + 1 - 1 = int k" and i2: "int k + 1 = int (Suc k)"
    by simp_all
  have step: "inner_loop x (dp_row r hyp (length hyp)) (dp_row (r @ [x]) hyp k)
           (py_enumerate (int k + 1) (drop k hyp))
        = inner_loop x (dp_row r hyp (length hyp)) (dp_row (r @ [x]) hyp (Suc k))
           (py_enumerate (int (Suc k) + 1) (drop (Suc k) hyp))"
    unfolding dr py_enumerate.simps inner_loop.simps i1 unfolding i2 a b c
    by (simp only: sum.case Let_def dp_cell[OF klt] dp_row_Suc)
  have "length hyp - Suc k = d" using Suc.hyps(2) by simp
  then show ?case using Suc.hyps(1)[of "Suc k"] klt step by simp
qed

lemma dp_row_snoc_0: "dp_row (r @ [x]) hyp 0 = [int (length r) + 1]"
  by (simp add: dp_row_def lev_Nil2)

lemma outer_loop_correct:
  "outer_loop hyp (dp_row r hyp (length hyp)) (py_enumerate (int (length r) + 1) rest)
     = Inr (dp_row (r @ rest) hyp (length hyp))"
proof (induction rest arbitrary: r)
  case Nil
  show ?case by simp
next
  case (Cons x rest)
  have inner: "inner_loop x (dp_row r hyp (length hyp)) [int (length r) + 1] (py_enumerate 1 hyp)
       = Inr (dp_row (r @ [x]) hyp (length hyp))"
    using inner_loop_correct[of 0 hyp x r] by (simp add: dp_row_snoc_0)
  have "int (length r) + 1 + 1 = int (length (r @ [x])) + 1" by simp
  then show ?case
    using Cons.IH[of "r @ [x]"] inner by simp
qed

lemma dp_row_init:
  assumes "n \<le> length hyp"
  shows "[0..int n] = dp_row [] hyp n"
proof -
  have "[0..int n] = map int [0..<Suc n]"
    by (induction n) (simp_all add: upto_rec2)
  also have "\<dots> = dp_row [] hyp n"
    using assms by (simp add: dp_row_def)
  finally show ?thesis .
qed

text \<open>
  The program returns, and what it returns is the edit distance of the specification.
\<close>

lemma levenshtein_distance_lev:
  "levenshtein_distance ref hyp = Inr (int (levenshtein_spec ref hyp))"
proof -
  have "outer_loop hyp [0..int (length hyp)] (py_enumerate 1 ref)
          = Inr (dp_row ref hyp (length hyp))"
    using outer_loop_correct[of hyp "[]" ref] dp_row_init[of "length hyp" hyp] by simp
  moreover have "py_index (dp_row ref hyp (length hyp)) (- 1)
          = Inr (int (levenshtein_spec ref hyp))"
    using py_index_last[of "dp_row ref hyp (length hyp)"]
      nth_dp_row[of "length hyp" "length hyp" ref hyp]
    by (simp add: length_dp_row dp_row_def)
  ultimately show ?thesis by (simp add: levenshtein_distance_def)
qed

section \<open>Claims about scoring.py\<close>

text \<open>
  Claim C8. For every pair of token sequences \<open>a\<close> and \<open>b\<close>, \<open>_levenshtein_distance\<close>
  returns (it raises on neither order of the arguments) and the two results agree:
  \<open>_levenshtein_distance(a, b) == _levenshtein_distance(b, a)\<close>.
\<close>

theorem levenshtein_distance_symmetric:
  "\<exists>d. levenshtein_distance a b = Inr d \<and> levenshtein_distance b a = Inr d"
  by (simp add: levenshtein_distance_lev lev_sym[of a b])

lemma cer_value:
  "cer ref hyp = Inr (if ref = [] then (if hyp = [] then 0 else 1)
                      else real (levenshtein_spec ref hyp) / real (length ref))"
  by (simp add: cer_def levenshtein_distance_lev)

text \<open>
  Claim C5. For all reference/hypothesis pairs, \<open>cer(ref, hyp) == 0.0\<close> exactly when
  \<open>ref == hyp\<close>; \<open>cer("", "") == 0.0\<close>; \<open>cer("", hyp) == 1.0\<close> for every non-empty
  \<open>hyp\<close>; and for a non-empty \<open>ref\<close> the result is the Levenshtein distance over the
  characters divided by the number of characters of \<open>ref\<close>. The function applies no
  preprocessing of its own, so the comparison is on the strings as they are passed.
\<close>

theorem cer_properties:
  "(cer ref hyp = Inr 0 \<longleftrightarrow> ref = hyp)
   \<and> cer ([] :: 'a list) [] = Inr 0
   \<and> (hyp \<noteq> [] \<longrightarrow> cer [] hyp = Inr 1)
   \<and> (ref \<noteq> [] \<longrightarrow> cer ref hyp = Inr (real (levenshtein_spec ref hyp) / real (length ref)))"
proof (intro conjI impI)
  show "cer ref hyp = Inr 0 \<longleftrightarrow> ref = hyp"
  proof (cases "ref = []")
    case True
    then show ?thesis by (auto simp: cer_value)
  next
    case False
    then have "cer ref hyp = Inr 0 \<longleftrightarrow> levenshtein_spec ref hyp = 0"
      by (simp add: cer_value)
    then show ?thesis by (simp add: lev_eq_0_iff)
  qed
qed (simp_all add: cer_value)

theorem cer_properties_witness:
  "(cer ''abc'' ''abd'' = Inr 0 \<longleftrightarrow> ''abc'' = ''abd'')
   \<and> ''abd'' \<noteq> [] \<and> cer [] ''abd'' = Inr 1
   \<and> ''abc'' \<noteq> [] \<and> cer ''abc'' ''abd'' = Inr (1 / 3)"
  using cer_properties[of "''abc''" "''abd''"] by auto

text \<open>
  Claim C9. \<open>cer\<close> and \<open>wer\<close> are not clamped to the unit interval: a non-empty reference
  with a longer hypothesis gives a rate above 1, for \<open>cer\<close> (\<open>cer("a", "bcd") = 3\<close>) and
  likewise for \<open>wer\<close> (\<open>wer("a", "b c d") = 3\<close>). Both are functions of their two
  arguments alone.
\<close>

theorem cer_wer_not_clamped:
  "(\<exists>(ref :: string) hyp r. ref \<noteq> [] \<and> length ref < length hyp \<and> cer ref hyp = Inr r \<and> 1 < r)
   \<and> (\<exists>ref hyp r. py_split ref \<noteq> [] \<and> length (py_split ref) < length (py_split hyp)
          \<and> wer ref hyp = Inr r \<and> 1 < r)"
proof
  have c: "cer ''a'' ''bcd'' = Inr 3"
    by (simp add: cer_value)
  show "\<exists>(ref :: string) hyp r. ref \<noteq> [] \<and> length ref < length hyp \<and> cer ref hyp = Inr r \<and> 1 < r"
    by (intro exI[of _ "''a''"] exI[of _ "''bcd''"] exI[of _ "3::real"]) (simp add: c)
  have s1: "py_split ''a'' = [''a'']"
    by (simp add: py_split_def py_isspace_def)
  have s2: "py_split ''b c d'' = [''b'', ''c'', ''d'']"
    by (simp add: py_split_def py_isspace_def)
  have w: "wer ''a'' ''b c d'' = Inr 3"
    by (simp add: wer_def s1 s2 levenshtein_distance_lev)
  show "\<exists>ref hyp r. py_split ref \<noteq> [] \<and> length (py_split ref) < length (py_split hyp)
          \<and> wer ref hyp = Inr r \<and> 1 < r"
    by (intro exI[of _ "''a''"] exI[of _ "''b c d''"] exI[of _ "3::real"]) (simp add: s1 s2 w)
qed

lemma py_contains_sublist: "py_contains n h \<longleftrightarrow> sublist n h"
  by (induction h) (simp_all add: sublist_Cons_right)

lemma last_dropWhile: "dropWhile P xs \<noteq> [] \<Longrightarrow> last (dropWhile P xs) = last xs"
  by (induction xs) (auto split: if_splits)

lemma strip_with_Nil: "strip_with P [] = []"
  by (simp add: strip_with_def)

text \<open>What \<open>strip()\<close> returns neither starts nor ends with whitespace.\<close>

lemma strip_with_ends:
  assumes "strip_with P s \<noteq> []"
  shows "\<not> P (hd (strip_with P s)) \<and> \<not> P (last (strip_with P s))"
proof -
  define t where "t = dropWhile P s"
  define u where "u = dropWhile P (rev t)"
  have u: "u \<noteq> []" and s: "strip_with P s = rev u"
    using assms by (simp_all add: strip_with_def t_def u_def)
  then have t: "t \<noteq> []" by (auto simp: u_def)
  have "\<not> P (hd u)" using u unfolding u_def by (rule hd_dropWhile)
  moreover have "last u = hd t"
    using last_dropWhile[of P "rev t"] u t by (simp add: u_def last_rev)
  moreover have "\<not> P (hd t)" using t unfolding t_def by (rule hd_dropWhile)
  ultimately show ?thesis using u by (simp add: s hd_rev last_rev)
qed

text \<open>What it removes is whitespace, in front and behind.\<close>

lemma strip_with_decomp:
  "\<exists>a b. s = a @ strip_with P s @ b \<and> (\<forall>c \<in> set a. P c) \<and> (\<forall>c \<in> set b. P c)"
proof -
  define t where "t = dropWhile P s"
  have 1: "s = takeWhile P s @ t" by (simp add: t_def)
  have "rev (takeWhile P (rev t) @ dropWhile P (rev t)) = rev (rev t)"
    by (simp only: takeWhile_dropWhile_id)
  then have 2: "t = rev (dropWhile P (rev t)) @ rev (takeWhile P (rev t))"
    by (simp only: rev_append rev_rev_ident)
  have 3: "strip_with P s = rev (dropWhile P (rev t))" by (simp add: strip_with_def t_def)
  have "s = takeWhile P s @ strip_with P s @ rev (takeWhile P (rev t))"
    using 1 2 3 by simp
  moreover have "\<forall>c \<in> set (takeWhile P s). P c" by (auto dest: set_takeWhileD)
  moreover have "\<forall>c \<in> set (rev (takeWhile P (rev t))). P c" by (auto dest: set_takeWhileD)
  ultimately show ?thesis by blast
qed

text \<open>\<open>split(sep)\<close>: the pieces hold no separator, and joined by it they give the string back.\<close>

lemma split_on_not_Nil: "split_on sep cur cs \<noteq> []"
  by (induction cs arbitrary: cur) auto

lemma py_join_Cons: "ps \<noteq> [] \<Longrightarrow> py_join sep (p # ps) = p @ sep @ py_join sep ps"
  by (cases ps) simp_all

lemma join_split_on: "py_join [sep] (split_on sep cur cs) = cur @ cs"
proof (induction cs arbitrary: cur)
  case Nil
  show ?case by simp
next
  case (Cons c cs)
  show ?case
  proof (cases "c = sep")
    case True
    then show ?thesis
      using Cons.IH[of "[]"] by (simp add: py_join_Cons split_on_not_Nil)
  next
    case False
    then show ?thesis using Cons.IH[of "cur @ [c]"] by simp
  qed
qed

lemma split_on_no_sep:
  "sep \<notin> set cur \<Longrightarrow> p \<in> set (split_on sep cur cs) \<Longrightarrow> sep \<notin> set p"
proof (induction cs arbitrary: cur)
  case Nil
  then show ?case by simp
next
  case (Cons c cs)
  show ?case
  proof (cases "c = sep")
    case True
    then have "p = cur \<or> p \<in> set (split_on sep [] cs)" using Cons.prems(2) by simp
    then show ?thesis using Cons.prems(1) Cons.IH[of "[]"] by auto
  next
    case False
    then have "p \<in> set (split_on sep (cur @ [c]) cs)" using Cons.prems(2) by simp
    moreover have "sep \<notin> set (cur @ [c])" using False Cons.prems(1) by simp
    ultimately show ?thesis by (rule Cons.IH[rotated])
  qed
qed

lemma py_split_on_join: "py_join [sep] (py_split_on sep s) = s"
  using join_split_on[of sep "[]" s] by (simp add: py_split_on_def)

lemma py_split_on_pieces: "p \<in> set (py_split_on sep s) \<Longrightarrow> sep \<notin> set p"
  using split_on_no_sep[of sep "[]" p s] by (simp add: py_split_on_def)

lemma keyword_filter:
  "filter (\<lambda>item. item \<noteq> [] \<and> strip_with P item \<noteq> []) its
     = filter (\<lambda>item. strip_with P item \<noteq> []) its"
  by (rule filter_cong) (auto simp: strip_with_Nil)

lemma check_answer_items:
  "check_answer_with_keywords U answer kws =
     (keyword_items U kws \<noteq> [] \<and>
        (\<forall>k \<in> set (keyword_items U kws). sublist (u_lower U k) (u_lower U answer)),
      filter (\<lambda>k. \<not> sublist (u_lower U k) (u_lower U answer)) (keyword_items U kws))"
  by (auto simp: check_answer_with_keywords_def Let_def py_contains_sublist filter_empty_conv)


lemma strip_with_blank: "strip_with P s = [] \<longleftrightarrow> (\<forall>c \<in> set s. P c)"
proof -
  define t where "t = dropWhile P s"
  have 1: "strip_with P s = [] \<longleftrightarrow> (\<forall>c \<in> set t. P c)"
    by (simp add: strip_with_def t_def dropWhile_eq_Nil_conv)
  have 2: "t = []" if "\<forall>c \<in> set t. P c"
  proof (rule ccontr)
    assume n: "t \<noteq> []"
    then have "\<not> P (hd t)" unfolding t_def by (rule hd_dropWhile)
    moreover have "hd t \<in> set t" using n by (rule hd_in_set)
    ultimately show False using that by blast
  qed
  have 3: "(\<forall>c \<in> set t. P c) \<longleftrightarrow> t = []"
  proof
    assume "\<forall>c \<in> set t. P c"
    then show "t = []" by (rule 2)
  next
    assume "t = []"
    then show "\<forall>c \<in> set t. P c" by simp
  qed
  have 4: "t = [] \<longleftrightarrow> (\<forall>c \<in> set s. P c)"
    by (simp add: t_def dropWhile_eq_Nil_conv)
  show ?thesis by (simp only: 1 3 4)
qed

lemma split_on_chars:
  "p \<in> set (split_on sep cur cs) \<Longrightarrow> set p \<subseteq> set cur \<union> set cs"
proof (induction cs arbitrary: cur)
  case Nil
  then show ?case by simp
next
  case (Cons c cs)
  show ?case
  proof (cases "c = sep")
    case True
    then have "p = cur \<or> p \<in> set (split_on sep [] cs)" using Cons.prems by simp
    then show ?thesis using Cons.IH[of "[]"] by auto
  next
    case False
    then have "p \<in> set (split_on sep (cur @ [c]) cs)" using Cons.prems by simp
    then show ?thesis using Cons.IH[of "cur @ [c]"] by auto
  qed
qed

lemma check_answer_iter:
  "check_answer_with_keywords U answer (KwIter its) =
     (let trimmed = map (strip_with (u_isspace U))
                      (filter (\<lambda>item. strip_with (u_isspace U) item \<noteq> []) its);
          missing = filter (\<lambda>k. \<not> sublist (u_lower U k) (u_lower U answer)) trimmed
      in (trimmed \<noteq> [] \<and> missing = [], missing))"
  by (simp add: check_answer_with_keywords_def Let_def keyword_filter py_contains_sublist)

lemma check_answer_str:
  "check_answer_with_keywords U answer (KwStr s) =
     check_answer_with_keywords U answer (KwIter (py_split_on (u_comma U) s))"
  by (simp add: check_answer_with_keywords_def keyword_filter)

lemma check_answer_blank_iter:
  assumes "\<forall>item \<in> set its. \<forall>c \<in> set item. u_isspace U c"
  shows "check_answer_with_keywords U answer (KwIter its) = (False, [])"
proof -
  have "filter (\<lambda>item. strip_with (u_isspace U) item \<noteq> []) its = []"
    using assms by (simp add: filter_empty_conv strip_with_blank)
  then show ?thesis by (simp add: check_answer_iter)
qed

lemma check_answer_blank_str:
  assumes "\<forall>c \<in> set s. u_isspace U c \<or> c = u_comma U"
  shows "check_answer_with_keywords U answer (KwStr s) = (False, [])"
proof -
  have "\<forall>c \<in> set item. u_isspace U c" if "item \<in> set (py_split_on (u_comma U) s)" for item
  proof
    fix c assume c: "c \<in> set item"
    have "u_comma U \<notin> set item" using that by (rule py_split_on_pieces)
    then have "c \<noteq> u_comma U" using c by blast
    moreover have "c \<in> set s"
      using split_on_chars[of item "u_comma U" "[]" s] that c by (auto simp: py_split_on_def)
    ultimately show "u_isspace U c" using assms by blast
  qed
  then show ?thesis by (simp add: check_answer_str check_answer_blank_iter)
qed

text \<open>
  Claim C6. \<open>check_answer_with_keywords\<close> trims each keyword, drops the keywords that are
  blank, matches each remaining one case-insensitively as a contiguous substring of the
  answer, and returns \<open>(allMatched, missingKeywords)\<close>: the trimmed keywords that did not
  match, in the order of the specification, and whether there is a keyword and none is
  missing. This holds for an iterable of keywords, and for a comma-separated string, whose
  keywords are the pieces between its commas: the pieces hold no comma and, joined by
  commas, give the string back. Trimming a keyword removes whitespace in front and behind
  until a character that is no whitespace is met at each end. A specification with no
  non-blank item gives \<open>(False, [])\<close>: an iterable whose items are all whitespace (or that
  has no item), a string of whitespace and commas. On
  \<open>("The lion is a carnivore", "lion, carnivore")\<close> the function returns \<open>(True, [])\<close>, on
  \<open>("The lion is here", "lion, carnivore")\<close> it returns \<open>(False, ["carnivore"])\<close>, and the
  same verdicts come out for the lists \<open>["lion", "carnivore"]\<close>. The last two examples
  are in Chinese, written as code points: the answer \<open>U+53F0 U+7063 U+9ED1 U+718A U+5403
  U+8089\<close> holds the keyword \<open>U+9ED1 U+718A\<close> and not \<open>U+77F3 U+864E\<close>, which follows a comma
  and an ideographic space.
\<close>

theorem check_answer_with_keywords_spec:
  "check_answer_with_keywords U answer (KwIter its) =
     (let trimmed = map (strip_with (u_isspace U))
                      (filter (\<lambda>item. strip_with (u_isspace U) item \<noteq> []) its);
          missing = filter (\<lambda>k. \<not> sublist (u_lower U k) (u_lower U answer)) trimmed
      in (trimmed \<noteq> [] \<and> missing = [], missing))
   \<and> check_answer_with_keywords U answer (KwStr s) =
       check_answer_with_keywords U answer (KwIter (py_split_on (u_comma U) s))
   \<and> py_join [u_comma U] (py_split_on (u_comma U) s) = s
   \<and> (\<forall>piece \<in> set (py_split_on (u_comma U) s). u_comma U \<notin> set piece)
   \<and> (\<exists>front back. item = front @ strip_with (u_isspace U) item @ back
         \<and> (\<forall>c \<in> set front. u_isspace U c) \<and> (\<forall>c \<in> set back. u_isspace U c))
   \<and> (strip_with (u_isspace U) item \<noteq> [] \<longrightarrow>
         \<not> u_isspace U (hd (strip_with (u_isspace U) item))
         \<and> \<not> u_isspace U (last (strip_with (u_isspace U) item)))
   \<and> ((\<forall>item \<in> set its. \<forall>c \<in> set item. u_isspace U c) \<longrightarrow>
         check_answer_with_keywords U answer (KwIter its) = (False, []))
   \<and> ((\<forall>c \<in> set s. u_isspace U c \<or> c = u_comma U) \<longrightarrow>
         check_answer_with_keywords U answer (KwStr s) = (False, []))
   \<and> check_answer_with_keywords U answer (KwIter []) = (False, [])
   \<and> check_answer_with_keywords latin1 ''The lion is a carnivore'' (KwStr ''lion, carnivore'')
       = (True, [])
   \<and> check_answer_with_keywords latin1 ''The lion is here'' (KwStr ''lion, carnivore'')
       = (False, [''carnivore''])
   \<and> check_answer_with_keywords latin1 ''The lion is a carnivore'' (KwIter [''lion'', ''carnivore''])
       = (True, [])
   \<and> check_answer_with_keywords latin1 ''The lion is here'' (KwIter [''lion'', ''carnivore''])
       = (False, [''carnivore''])
   \<and> check_answer_with_keywords latin1 ''lion'' (KwIter [''lion'']) = (True, [])
   \<and> check_answer_with_keywords ascii_cjk [21488, 28771, 40657, 29066, 21507, 32905]
         (KwStr [40657, 29066, 44, 12288, 30707, 34382])
       = (False, [[30707, 34382]])
   \<and> check_answer_with_keywords ascii_cjk [21488, 28771, 40657, 29066, 21507, 32905]
         (KwIter [[40657, 29066, 32], [], [12288]])
       = (True, [])"
proof (intro conjI)
  show "check_answer_with_keywords U answer (KwIter its) =
     (let trimmed = map (strip_with (u_isspace U))
                      (filter (\<lambda>item. strip_with (u_isspace U) item \<noteq> []) its);
          missing = filter (\<lambda>k. \<not> sublist (u_lower U k) (u_lower U answer)) trimmed
      in (trimmed \<noteq> [] \<and> missing = [], missing))"
    by (rule check_answer_iter)
  show "check_answer_with_keywords U answer (KwStr s) =
       check_answer_with_keywords U answer (KwIter (py_split_on (u_comma U) s))"
    by (rule check_answer_str)
  show "py_join [u_comma U] (py_split_on (u_comma U) s) = s"
    by (rule py_split_on_join)
  show "\<forall>piece \<in> set (py_split_on (u_comma U) s). u_comma U \<notin> set piece"
    by (simp add: py_split_on_pieces)
  show "\<exists>front back. item = front @ strip_with (u_isspace U) item @ back
         \<and> (\<forall>c \<in> set front. u_isspace U c) \<and> (\<forall>c \<in> set back. u_isspace U c)"
    by (rule strip_with_decomp)
  show "strip_with (u_isspace U) item \<noteq> [] \<longrightarrow>
         \<not> u_isspace U (hd (strip_with (u_isspace U) item))
         \<and> \<not> u_isspace U (last (strip_with (u_isspace U) item))"
    using strip_with_ends by blast
  show "(\<forall>item \<in> set its. \<forall>c \<in> set item. u_isspace U c) \<longrightarrow>
         check_answer_with_keywords U answer (KwIter its) = (False, [])"
    using check_answer_blank_iter by blast
  show "(\<forall>c \<in> set s. u_isspace U c \<or> c = u_comma U) \<longrightarrow>
         check_answer_with_keywords U answer (KwStr s) = (False, [])"
    using check_answer_blank_str by blast
  show "check_answer_with_keywords U answer (KwIter []) = (False, [])"
    by (simp add: check_answer_with_keywords_def)
  show "check_answer_with_keywords latin1 ''The lion is a carnivore'' (KwStr ''lion, carnivore'')
       = (True, [])"
    by code_simp
  show "check_answer_with_keywords latin1 ''The lion is here'' (KwStr ''lion, carnivore'')
       = (False, [''carnivore''])"
    by code_simp
  show "check_answer_with_keywords latin1 ''The lion is a carnivore'' (KwIter [''lion'', ''carnivore''])
       = (True, [])"
    by code_simp
  show "check_answer_with_keywords latin1 ''The lion is here'' (KwIter [''lion'', ''carnivore''])
       = (False, [''carnivore''])"
    by code_simp
  show "check_answer_with_keywords latin1 ''lion'' (KwIter [''lion'']) = (True, [])"
    by code_simp
  show "check_answer_with_keywords ascii_cjk [21488, 28771, 40657, 29066, 21507, 32905]
         (KwStr [40657, 29066, 44, 12288, 30707, 34382])
       = (False, [[30707, 34382]])"
    by code_simp
  show "check_answer_with_keywords ascii_cjk [21488, 28771, 40657, 29066, 21507, 32905]
         (KwIter [[40657, 29066, 32], [], [12288]])
       = (True, [])"
    by code_simp
qed

theorem check_answer_with_keywords_spec_witness:
  "check_answer_with_keywords latin1 ''The LION is here'' (KwIter ['' Lion '', [], ''Carnivore ''])
     = (False, [''Carnivore''])
   \<and> check_answer_with_keywords latin1 ''The LION is here'' (KwStr ''Lion , carnivore'')
     = check_answer_with_keywords latin1 ''The LION is here'' (KwIter [''Lion '', '' carnivore''])
   \<and> strip_with py_isspace '' carnivore'' = ''carnivore''
   \<and> check_answer_with_keywords latin1 ''The LION is here'' (KwIter ['' '', []]) = (False, [])
   \<and> check_answer_with_keywords latin1 ''The LION is here'' (KwStr '' , ,'') = (False, [])"
proof -
  note a = check_answer_with_keywords_spec
    [of latin1 "''The LION is here''" "['' Lion '', [], ''Carnivore '']" "''Lion , carnivore''"
        "'' carnivore''"]
  note b = check_answer_with_keywords_spec
    [of latin1 "''The LION is here''" "['' '', []]" "'' , ,''" "[]"]
  have v: "(let trimmed = map (strip_with (u_isspace latin1))
                      (filter (\<lambda>item. strip_with (u_isspace latin1) item \<noteq> [])
                         ['' Lion '', [], ''Carnivore '']);
          missing = filter (\<lambda>k. \<not> sublist (u_lower latin1 k) (u_lower latin1 ''The LION is here''))
                      trimmed
      in (trimmed \<noteq> [] \<and> missing = [], missing)) = (False, [''Carnivore''])"
    by code_simp
  have sp: "py_split_on (u_comma latin1) ''Lion , carnivore'' = [''Lion '', '' carnivore'']"
    by code_simp
  have st: "strip_with py_isspace '' carnivore'' = ''carnivore''"
    by code_simp
  have h1: "\<forall>item \<in> set ['' '', []]. \<forall>c \<in> set item. u_isspace latin1 c"
    by (simp add: latin1_def py_isspace_def)
  have h2: "\<forall>c \<in> set '' , ,''. u_isspace latin1 c \<or> c = u_comma latin1"
    by (simp add: latin1_def py_isspace_def)
  have 1: "check_answer_with_keywords latin1 ''The LION is here''
             (KwIter ['' Lion '', [], ''Carnivore '']) = (False, [''Carnivore''])"
    using a[THEN conjunct1] unfolding v .
  have 2: "check_answer_with_keywords latin1 ''The LION is here'' (KwStr ''Lion , carnivore'')
     = check_answer_with_keywords latin1 ''The LION is here'' (KwIter [''Lion '', '' carnivore''])"
    using a[THEN conjunct2, THEN conjunct1] unfolding sp .
  have 4: "check_answer_with_keywords latin1 ''The LION is here'' (KwIter ['' '', []]) = (False, [])"
    using b[THEN conjunct2, THEN conjunct2, THEN conjunct2, THEN conjunct2, THEN conjunct2,
            THEN conjunct2, THEN conjunct1] h1 by (rule mp)
  have 5: "check_answer_with_keywords latin1 ''The LION is here'' (KwStr '' , ,'') = (False, [])"
    using b[THEN conjunct2, THEN conjunct2, THEN conjunct2, THEN conjunct2, THEN conjunct2,
            THEN conjunct2, THEN conjunct2, THEN conjunct1] h2 by (rule mp)
  show ?thesis using 1 2 st 4 5 by (simp only: simp_thms)
qed

section \<open>Claims about \<open>llm_client.py\<close> and \<open>pipeline.py\<close>\<close>

lemma eval_block_exception:
  "fst (eval_block w q ref result) = stage4_exception w q ref (ai_answer result)"
  by (auto simp: eval_block_def stage4_exception_def split: sum.splits option.splits)

lemma eval_block_keeps:
  "eval_block w q ref result = (x, result') \<Longrightarrow>
     tts_latency result' = tts_latency result \<and> stt_latency result' = stt_latency result
     \<and> chatbase_latency result' = chatbase_latency result \<and> eval_latency result' = eval_latency result
     \<and> status result' = status result \<and> error_msg result' = error_msg result
     \<and> total_latency result' = total_latency result"
  by (auto simp: eval_block_def split: sum.splits option.splits if_splits)

text \<open>The four ways out of the try block by an exception, and the normal one.\<close>

lemma try_body_tts_fails:
  assumes "tts_call w od i q lc = Some e"
  shows "try_body w od i q ref ph sp lc (r0, k) = (Some e, (r0, k + 1))"
  using assms by (simp add: try_body_def and_then_def stage_tts_def)

lemma try_body_stt_fails:
  assumes "tts_call w od i q lc = None" "stt_call w od i q ph sp lc = Inl e"
  shows "try_body w od i q ref ph sp lc (r0, k) =
           (Some e, (r0\<lparr> tts_latency := perf_counter w (k + 1) - perf_counter w k,
                          audio_path := Some (upload_audio w od i q) \<rparr>, k + 3))"
  using assms by (simp add: try_body_def and_then_def stage_tts_def stage_stt_def eval_nat_numeral)

lemma try_body_chatbase_fails:
  assumes "tts_call w od i q lc = None" "stt_call w od i q ph sp lc = Inr stt_raw"
    "ask_chatbase w (query_text sp (normalize_text (Some stt_raw))) = Inl e"
  shows "try_body w od i q ref ph sp lc (r0, k) =
           (Some e, (r0\<lparr> tts_latency := perf_counter w (k + 1) - perf_counter w k,
                          audio_path := Some (upload_audio w od i q),
                          stt_text := normalize_text (Some stt_raw),
                          stt_latency := perf_counter w (k + 3) - perf_counter w (k + 2) \<rparr>, k + 5))"
  using assms
  by (simp add: try_body_def and_then_def stage_tts_def stage_stt_def stage_chatbase_def
      eval_nat_numeral)

lemma try_body_reaches_eval:
  assumes "tts_call w od i q lc = None" "stt_call w od i q ph sp lc = Inr stt_raw"
    "ask_chatbase w (query_text sp (normalize_text (Some stt_raw))) = Inr cb"
  shows "try_body w od i q ref ph sp lc (r0, k) =
           stage_eval w q ref (after_chatbase w od i q stt_raw cb k r0, k + 6)"
  using assms
  by (simp add: try_body_def and_then_def stage_tts_def stage_stt_def stage_chatbase_def
      after_chatbase_def eval_nat_numeral)

lemma stage_eval_cases:
  "stage_eval w q ref (r, k) =
     (case eval_block w q ref r of
        (Some e, r') \<Rightarrow> (Some e, (r', k + 1))
      | (None, r') \<Rightarrow> (None, (r'\<lparr> eval_latency := perf_counter w (k + 1) - perf_counter w k,
                                   status := ''success'' \<rparr>, k + 2)))"
  by (simp add: stage_eval_def split: prod.splits option.splits)

lemma process_item_tts_fails:
  assumes "tts_call w od i q lc = Some e"
  shows "process_item w od i q ref ph sp lc =
           (new_result i q ref)\<lparr> status := ''error'', error_msg := Some (exc_str e),
              total_latency := perf_counter w 2 - perf_counter w 0 \<rparr>"
  by (simp add: process_item_def try_body_tts_fails[OF assms] eval_nat_numeral)

lemma process_item_stt_fails:
  assumes "tts_call w od i q lc = None" "stt_call w od i q ph sp lc = Inl e"
  shows "process_item w od i q ref ph sp lc =
           (new_result i q ref)\<lparr> tts_latency := perf_counter w 2 - perf_counter w 1,
              audio_path := Some (upload_audio w od i q),
              status := ''error'', error_msg := Some (exc_str e),
              total_latency := perf_counter w 4 - perf_counter w 0 \<rparr>"
  by (simp add: process_item_def try_body_stt_fails[OF assms] eval_nat_numeral)

lemma process_item_chatbase_fails:
  assumes "tts_call w od i q lc = None" "stt_call w od i q ph sp lc = Inr stt_raw"
    "ask_chatbase w (query_text sp (normalize_text (Some stt_raw))) = Inl e"
  shows "process_item w od i q ref ph sp lc =
           (new_result i q ref)\<lparr> tts_latency := perf_counter w 2 - perf_counter w 1,
              audio_path := Some (upload_audio w od i q),
              stt_text := normalize_text (Some stt_raw),
              stt_latency := perf_counter w 4 - perf_counter w 3,
              status := ''error'', error_msg := Some (exc_str e),
              total_latency := perf_counter w 6 - perf_counter w 0 \<rparr>"
  by (simp add: process_item_def try_body_chatbase_fails[OF assms] eval_nat_numeral)

lemma process_item_eval:
  assumes "tts_call w od i q lc = None" "stt_call w od i q ph sp lc = Inr stt_raw"
    "ask_chatbase w (query_text sp (normalize_text (Some stt_raw))) = Inr cb"
  shows "process_item w od i q ref ph sp lc =
     (case eval_block w q ref (after_chatbase w od i q stt_raw cb 1 (new_result i q ref)) of
        (Some e, r') \<Rightarrow> r'\<lparr> status := ''error'', error_msg := Some (exc_str e),
                            total_latency := perf_counter w 8 - perf_counter w 0 \<rparr>
      | (None, r') \<Rightarrow> r'\<lparr> eval_latency := perf_counter w 8 - perf_counter w 7,
                           status := ''success'',
                           total_latency := perf_counter w 9 - perf_counter w 0 \<rparr>)"
  by (simp add: process_item_def try_body_reaches_eval[OF assms] stage_eval_cases
      eval_nat_numeral split: prod.splits option.splits)

lemma after_chatbase_fields:
  "tts_latency (after_chatbase w od i q stt_raw cb k r0) = perf_counter w (k + 1) - perf_counter w k"
  "stt_latency (after_chatbase w od i q stt_raw cb k r0) = perf_counter w (k + 3) - perf_counter w (k + 2)"
  "chatbase_latency (after_chatbase w od i q stt_raw cb k r0) = perf_counter w (k + 5) - perf_counter w (k + 4)"
  "eval_latency (after_chatbase w od i q stt_raw cb k r0) = eval_latency r0"
  "ai_answer (after_chatbase w od i q stt_raw cb k r0) = answer_text cb"
  "status (after_chatbase w od i q stt_raw cb k r0) = status r0"
  "error_msg (after_chatbase w od i q stt_raw cb k r0) = error_msg r0"
  "score (after_chatbase w od i q stt_raw cb k r0) = score r0"
  "reason (after_chatbase w od i q stt_raw cb k r0) = reason r0"
  by (simp_all add: after_chatbase_def)

lemma process_item_eval_fails:
  assumes "tts_call w od i q lc = None" "stt_call w od i q ph sp lc = Inr stt_raw"
    "ask_chatbase w (query_text sp (normalize_text (Some stt_raw))) = Inr cb"
    "stage4_exception w q ref (answer_text cb) = Some e"
  shows "status (process_item w od i q ref ph sp lc) = ''error''"
    "error_msg (process_item w od i q ref ph sp lc) = Some (exc_str e)"
    "tts_latency (process_item w od i q ref ph sp lc) = perf_counter w 2 - perf_counter w 1"
    "stt_latency (process_item w od i q ref ph sp lc) = perf_counter w 4 - perf_counter w 3"
    "chatbase_latency (process_item w od i q ref ph sp lc) = perf_counter w 6 - perf_counter w 5"
    "eval_latency (process_item w od i q ref ph sp lc) = 0"
proof -
  let ?r = "after_chatbase w od i q stt_raw cb 1 (new_result i q ref)"
  obtain x r' where eb: "eval_block w q ref ?r = (x, r')" by (cases "eval_block w q ref ?r")
  have "x = Some e"
    using eval_block_exception[of w q ref ?r] assms(4) eb by (simp add: after_chatbase_fields)
  then have p: "process_item w od i q ref ph sp lc =
      r'\<lparr> status := ''error'', error_msg := Some (exc_str e),
          total_latency := perf_counter w 8 - perf_counter w 0 \<rparr>"
    using process_item_eval[OF assms(1-3), of ref] eb by simp
  note k = eval_block_keeps[OF eb]
  show "status (process_item w od i q ref ph sp lc) = ''error''"
    "error_msg (process_item w od i q ref ph sp lc) = Some (exc_str e)"
    "tts_latency (process_item w od i q ref ph sp lc) = perf_counter w 2 - perf_counter w 1"
    "stt_latency (process_item w od i q ref ph sp lc) = perf_counter w 4 - perf_counter w 3"
    "chatbase_latency (process_item w od i q ref ph sp lc) = perf_counter w 6 - perf_counter w 5"
    "eval_latency (process_item w od i q ref ph sp lc) = 0"
    using k by (simp_all add: p after_chatbase_fields new_result_def eval_nat_numeral)
qed

text \<open>
  Claim C4. \<open>process_item\<close> has no path on which an exception leaves it: whatever the
  collaborators do it returns a \<open>PipelineResult\<close>. When a stage ends with an exception
  \<open>e\<close> (the synthesis; the transcription; the chatbot query; the evaluation, whether the
  judge client raises or a key of its result is absent), the result has \<open>status = "error"\<close>
  and \<open>error_msg = str(e)\<close>, the latency of the failing stage and of every later one is
  still 0, and the latency of each completed stage is the difference of its two clock
  readings.
\<close>

theorem process_item_stage_failure:
  "(tts_call w od i q lc = Some e \<longrightarrow>
      status (process_item w od i q ref ph sp lc) = ''error''
      \<and> error_msg (process_item w od i q ref ph sp lc) = Some (exc_str e)
      \<and> tts_latency (process_item w od i q ref ph sp lc) = 0
      \<and> stt_latency (process_item w od i q ref ph sp lc) = 0
      \<and> chatbase_latency (process_item w od i q ref ph sp lc) = 0
      \<and> eval_latency (process_item w od i q ref ph sp lc) = 0)
   \<and> (tts_call w od i q lc = None \<and> stt_call w od i q ph sp lc = Inl e \<longrightarrow>
      status (process_item w od i q ref ph sp lc) = ''error''
      \<and> error_msg (process_item w od i q ref ph sp lc) = Some (exc_str e)
      \<and> tts_latency (process_item w od i q ref ph sp lc) = perf_counter w 2 - perf_counter w 1
      \<and> stt_latency (process_item w od i q ref ph sp lc) = 0
      \<and> chatbase_latency (process_item w od i q ref ph sp lc) = 0
      \<and> eval_latency (process_item w od i q ref ph sp lc) = 0)
   \<and> (tts_call w od i q lc = None \<and> stt_call w od i q ph sp lc = Inr stt_raw
        \<and> ask_chatbase w (query_text sp (normalize_text (Some stt_raw))) = Inl e \<longrightarrow>
      status (process_item w od i q ref ph sp lc) = ''error''
      \<and> error_msg (process_item w od i q ref ph sp lc) = Some (exc_str e)
      \<and> tts_latency (process_item w od i q ref ph sp lc) = perf_counter w 2 - perf_counter w 1
      \<and> stt_latency (process_item w od i q ref ph sp lc) = perf_counter w 4 - perf_counter w 3
      \<and> chatbase_latency (process_item w od i q ref ph sp lc) = 0
      \<and> eval_latency (process_item w od i q ref ph sp lc) = 0)
   \<and> (tts_call w od i q lc = None \<and> stt_call w od i q ph sp lc = Inr stt_raw
        \<and> ask_chatbase w (query_text sp (normalize_text (Some stt_raw))) = Inr cb
        \<and> stage4_exception w q ref (answer_text cb) = Some e \<longrightarrow>
      status (process_item w od i q ref ph sp lc) = ''error''
      \<and> error_msg (process_item w od i q ref ph sp lc) = Some (exc_str e)
      \<and> tts_latency (process_item w od i q ref ph sp lc) = perf_counter w 2 - perf_counter w 1
      \<and> stt_latency (process_item w od i q ref ph sp lc) = perf_counter w 4 - perf_counter w 3
      \<and> chatbase_latency (process_item w od i q ref ph sp lc) = perf_counter w 6 - perf_counter w 5
      \<and> eval_latency (process_item w od i q ref ph sp lc) = 0)"
proof (intro conjI impI)
  assume a: "tts_call w od i q lc = Some e"
  show "status (process_item w od i q ref ph sp lc) = ''error''"
    "error_msg (process_item w od i q ref ph sp lc) = Some (exc_str e)"
    "tts_latency (process_item w od i q ref ph sp lc) = 0"
    "stt_latency (process_item w od i q ref ph sp lc) = 0"
    "chatbase_latency (process_item w od i q ref ph sp lc) = 0"
    "eval_latency (process_item w od i q ref ph sp lc) = 0"
    by (simp_all add: process_item_tts_fails[OF a] new_result_def)
next
  assume "tts_call w od i q lc = None \<and> stt_call w od i q ph sp lc = Inl e"
  then have a: "tts_call w od i q lc = None" and b: "stt_call w od i q ph sp lc = Inl e"
    by simp_all
  show "status (process_item w od i q ref ph sp lc) = ''error''"
    "error_msg (process_item w od i q ref ph sp lc) = Some (exc_str e)"
    "tts_latency (process_item w od i q ref ph sp lc) = perf_counter w 2 - perf_counter w 1"
    "stt_latency (process_item w od i q ref ph sp lc) = 0"
    "chatbase_latency (process_item w od i q ref ph sp lc) = 0"
    "eval_latency (process_item w od i q ref ph sp lc) = 0"
    by (simp_all add: process_item_stt_fails[OF a b] new_result_def)
next
  assume "tts_call w od i q lc = None \<and> stt_call w od i q ph sp lc = Inr stt_raw
        \<and> ask_chatbase w (query_text sp (normalize_text (Some stt_raw))) = Inl e"
  then have a: "tts_call w od i q lc = None" and b: "stt_call w od i q ph sp lc = Inr stt_raw"
    and c: "ask_chatbase w (query_text sp (normalize_text (Some stt_raw))) = Inl e"
    by simp_all
  show "status (process_item w od i q ref ph sp lc) = ''error''"
    "error_msg (process_item w od i q ref ph sp lc) = Some (exc_str e)"
    "tts_latency (process_item w od i q ref ph sp lc) = perf_counter w 2 - perf_counter w 1"
    "stt_latency (process_item w od i q ref ph sp lc) = perf_counter w 4 - perf_counter w 3"
    "chatbase_latency (process_item w od i q ref ph sp lc) = 0"
    "eval_latency (process_item w od i q ref ph sp lc) = 0"
    by (simp_all add: process_item_chatbase_fails[OF a b c] new_result_def)
next
  assume "tts_call w od i q lc = None \<and> stt_call w od i q ph sp lc = Inr stt_raw
        \<and> ask_chatbase w (query_text sp (normalize_text (Some stt_raw))) = Inr cb
        \<and> stage4_exception w q ref (answer_text cb) = Some e"
  then have a: "tts_call w od i q lc = None" and b: "stt_call w od i q ph sp lc = Inr stt_raw"
    and c: "ask_chatbase w (query_text sp (normalize_text (Some stt_raw))) = Inr cb"
    and d: "stage4_exception w q ref (answer_text cb) = Some e"
    by simp_all
  show "status (process_item w od i q ref ph sp lc) = ''error''"
    "error_msg (process_item w od i q ref ph sp lc) = Some (exc_str e)"
    "tts_latency (process_item w od i q ref ph sp lc) = perf_counter w 2 - perf_counter w 1"
    "stt_latency (process_item w od i q ref ph sp lc) = perf_counter w 4 - perf_counter w 3"
    "chatbase_latency (process_item w od i q ref ph sp lc) = perf_counter w 6 - perf_counter w 5"
    "eval_latency (process_item w od i q ref ph sp lc) = 0"
    by (rule process_item_eval_fails[OF a b c d])+
qed

text \<open>The concrete worlds, evaluated.\<close>

lemma strip_key: "py_strip ''sk-test'' = ''sk-test''"
  by (simp add: py_strip_def strip_with_def py_isspace_def)

text \<open>The path of the audio file for some output directories.\<close>

lemma path_div_examples:
  "path_div ''audio'' ''q1_0a1b2c3d.wav'' = ''audio/q1_0a1b2c3d.wav''"
  "path_div ''audio/'' ''q1_0a1b2c3d.wav'' = ''audio/q1_0a1b2c3d.wav''"
  "path_div ''./out//audio'' ''q1_0a1b2c3d.wav'' = ''out/audio/q1_0a1b2c3d.wav''"
  "path_div ''.'' ''q1_0a1b2c3d.wav'' = ''q1_0a1b2c3d.wav''"
  "path_div [] ''q1_0a1b2c3d.wav'' = ''q1_0a1b2c3d.wav''"
  "path_div ''/'' ''q1_0a1b2c3d.wav'' = ''/q1_0a1b2c3d.wav''"
  "path_str [] = ''.''"
  "path_str ''audio/'' = ''audio''"
  by code_simp+

lemma require_env_ok: "require_env world_ok ''OPENAI_API_KEY'' = Inr ''sk-test''"
  by (simp add: require_env_def world_ok_def strip_key)

lemma w_tts: "tts_call world_tts_fails ''audio'' 1 ''What do lions eat?'' ''zh-TW''
                = Some (Exn ''RuntimeError'' ''Speech synthesis canceled'')"
  by (simp add: tts_call_def world_tts_fails_def world_ok_def)

lemma w_stt:
  "tts_call world_stt_fails ''audio'' 1 ''What do lions eat?'' ''zh-TW'' = None"
  "stt_call world_stt_fails ''audio'' 1 ''What do lions eat?'' None ''google'' ''zh-TW''
     = Inl (Exn ''RuntimeError'' ''Empty transcript returned for audio/q1_5d41402a.wav.'')"
  by (simp_all add: tts_call_def stt_call_def world_stt_fails_def world_ok_def)

lemma w_cb:
  "tts_call world_chatbase_fails ''audio'' 1 ''What do lions eat?'' ''zh-TW'' = None"
  "stt_call world_chatbase_fails ''audio'' 1 ''What do lions eat?'' None ''google'' ''zh-TW''
     = Inr ''What do lions eat''"
  "ask_chatbase world_chatbase_fails (query_text ''google'' (normalize_text (Some ''What do lions eat'')))
     = Inl (Exn ''ChatbaseError'' ''Failed to parse Chatbase response as JSON'')"
  by (simp_all add: tts_call_def stt_call_def world_chatbase_fails_def world_ok_def)

lemma w_judge:
  "tts_call world_judge_fails ''audio'' 1 ''What do lions eat?'' ''zh-TW'' = None"
  "stt_call world_judge_fails ''audio'' 1 ''What do lions eat?'' None ''google'' ''zh-TW''
     = Inr ''What do lions eat''"
  "ask_chatbase world_judge_fails (query_text ''google'' (normalize_text (Some ''What do lions eat'')))
     = Inr \<lparr> answer_text = ''Lions eat meat.'', conversation_id = None \<rparr>"
  by (simp_all add: tts_call_def stt_call_def world_judge_fails_def world_ok_def)

lemma w_judge_eval:
  "evaluate_answer_with_llm world_judge_fails ''What do lions eat?'' ''Meat'' ''Lions eat meat.''
     = Inr \<lparr> er_is_correct = Some False, er_score = None,
             er_reason = Some ''Evaluation failed: Connection error.'' \<rparr>"
  by (simp add: evaluate_answer_with_llm_def judge_call_def require_env_def
      world_judge_fails_def world_ok_def strip_key)

lemma w_judge_exc:
  "stage4_exception world_judge_fails ''What do lions eat?'' ''Meat'' ''Lions eat meat.''
     = Some (Exn ''KeyError'' (sq @ ''score'' @ sq))"
  by (simp add: stage4_exception_def w_judge_eval key_error_def)

theorem process_item_stage_failure_witness:
  "(tts_call world_tts_fails ''audio'' 1 ''What do lions eat?'' ''zh-TW''
      = Some (Exn ''RuntimeError'' ''Speech synthesis canceled'')
    \<and> status (process_item world_tts_fails ''audio'' 1 ''What do lions eat?'' ''Meat'' None ''google'' ''zh-TW'') = ''error''
    \<and> error_msg (process_item world_tts_fails ''audio'' 1 ''What do lions eat?'' ''Meat'' None ''google'' ''zh-TW'')
        = Some ''Speech synthesis canceled''
    \<and> tts_latency (process_item world_tts_fails ''audio'' 1 ''What do lions eat?'' ''Meat'' None ''google'' ''zh-TW'') = 0)
   \<and> (stt_call world_stt_fails ''audio'' 1 ''What do lions eat?'' None ''google'' ''zh-TW''
      = Inl (Exn ''RuntimeError'' ''Empty transcript returned for audio/q1_5d41402a.wav.'')
    \<and> status (process_item world_stt_fails ''audio'' 1 ''What do lions eat?'' ''Meat'' None ''google'' ''zh-TW'') = ''error''
    \<and> tts_latency (process_item world_stt_fails ''audio'' 1 ''What do lions eat?'' ''Meat'' None ''google'' ''zh-TW'') = 1
    \<and> stt_latency (process_item world_stt_fails ''audio'' 1 ''What do lions eat?'' ''Meat'' None ''google'' ''zh-TW'') = 0)
   \<and> (ask_chatbase world_chatbase_fails (query_text ''google'' (normalize_text (Some ''What do lions eat'')))
      = Inl (Exn ''ChatbaseError'' ''Failed to parse Chatbase response as JSON'')
    \<and> error_msg (process_item world_chatbase_fails ''audio'' 1 ''What do lions eat?'' ''Meat'' None ''google'' ''zh-TW'')
        = Some ''Failed to parse Chatbase response as JSON''
    \<and> stt_latency (process_item world_chatbase_fails ''audio'' 1 ''What do lions eat?'' ''Meat'' None ''google'' ''zh-TW'') = 1
    \<and> chatbase_latency (process_item world_chatbase_fails ''audio'' 1 ''What do lions eat?'' ''Meat'' None ''google'' ''zh-TW'') = 0)
   \<and> (stage4_exception world_judge_fails ''What do lions eat?'' ''Meat'' ''Lions eat meat.''
      = Some (Exn ''KeyError'' (sq @ ''score'' @ sq))
    \<and> status (process_item world_judge_fails ''audio'' 1 ''What do lions eat?'' ''Meat'' None ''google'' ''zh-TW'') = ''error''
    \<and> error_msg (process_item world_judge_fails ''audio'' 1 ''What do lions eat?'' ''Meat'' None ''google'' ''zh-TW'')
        = Some (sq @ ''score'' @ sq)
    \<and> chatbase_latency (process_item world_judge_fails ''audio'' 1 ''What do lions eat?'' ''Meat'' None ''google'' ''zh-TW'') = 1
    \<and> eval_latency (process_item world_judge_fails ''audio'' 1 ''What do lions eat?'' ''Meat'' None ''google'' ''zh-TW'') = 0)"
proof -
  note t = process_item_stage_failure[of world_tts_fails "''audio''" 1 "''What do lions eat?''" "''zh-TW''"
      "Exn ''RuntimeError'' ''Speech synthesis canceled''" "''Meat''" None "''google''",
      THEN conjunct1, rule_format, OF w_tts]
  note s = process_item_stage_failure[of world_stt_fails "''audio''" 1 "''What do lions eat?''" "''zh-TW''"
      "Exn ''RuntimeError'' ''Empty transcript returned for audio/q1_5d41402a.wav.''" "''Meat''" None "''google''",
      THEN conjunct2, THEN conjunct1, rule_format, OF conjI[OF w_stt]]
  note c = process_item_stage_failure[of world_chatbase_fails "''audio''" 1 "''What do lions eat?''" "''zh-TW''"
      "Exn ''ChatbaseError'' ''Failed to parse Chatbase response as JSON''" "''Meat''" None "''google''"
      "''What do lions eat''",
      THEN conjunct2, THEN conjunct2, THEN conjunct1, rule_format, OF conjI[OF w_cb(1) conjI[OF w_cb(2,3)]]]
  note j = process_item_stage_failure[of world_judge_fails "''audio''" 1 "''What do lions eat?''" "''zh-TW''"
      "Exn ''KeyError'' (sq @ ''score'' @ sq)" "''Meat''" None "''google''"
      "''What do lions eat''" "\<lparr> answer_text = ''Lions eat meat.'', conversation_id = None \<rparr>",
      THEN conjunct2, THEN conjunct2, THEN conjunct2, rule_format]
  have j': "status (process_item world_judge_fails ''audio'' 1 ''What do lions eat?'' ''Meat'' None ''google'' ''zh-TW'') = ''error''
    \<and> error_msg (process_item world_judge_fails ''audio'' 1 ''What do lions eat?'' ''Meat'' None ''google'' ''zh-TW'')
        = Some (exc_str (Exn ''KeyError'' (sq @ ''score'' @ sq)))
    \<and> tts_latency (process_item world_judge_fails ''audio'' 1 ''What do lions eat?'' ''Meat'' None ''google'' ''zh-TW'') = perf_counter world_judge_fails 2 - perf_counter world_judge_fails 1
    \<and> stt_latency (process_item world_judge_fails ''audio'' 1 ''What do lions eat?'' ''Meat'' None ''google'' ''zh-TW'') = perf_counter world_judge_fails 4 - perf_counter world_judge_fails 3
    \<and> chatbase_latency (process_item world_judge_fails ''audio'' 1 ''What do lions eat?'' ''Meat'' None ''google'' ''zh-TW'') = perf_counter world_judge_fails 6 - perf_counter world_judge_fails 5
    \<and> eval_latency (process_item world_judge_fails ''audio'' 1 ''What do lions eat?'' ''Meat'' None ''google'' ''zh-TW'') = 0"
    by (rule j) (simp add: w_judge w_judge_exc)
  have clk: "perf_counter world_tts_fails = real" "perf_counter world_stt_fails = real"
    "perf_counter world_chatbase_fails = real" "perf_counter world_judge_fails = real"
    by (simp_all add: world_tts_fails_def world_stt_fails_def world_chatbase_fails_def
        world_judge_fails_def world_ok_def)
  show ?thesis
    using t s c j' w_tts w_stt(2) w_cb(3) w_judge_exc by (simp add: clk)
qed

text \<open>
  Claim C10. For every input item and every behaviour of the collaborators, with a clock
  that does not run backwards (\<open>time.perf_counter\<close> is monotonic), the result of
  \<open>process_item\<close> never has status \<open>"pending"\<close>: its status is \<open>"success"\<close> or
  \<open>"error"\<close>, its \<open>total_latency\<close> is set to a non-negative value, and \<open>error_msg\<close>
  is not \<open>None\<close> only when the status is \<open>"error"\<close>.
\<close>

theorem process_item_status_invariant:
  assumes mono: "\<forall>a b. a \<le> b \<longrightarrow> perf_counter w a \<le> perf_counter w b"
  shows "(status (process_item w od i q ref ph sp lc) = ''success''
            \<or> status (process_item w od i q ref ph sp lc) = ''error'')
         \<and> status (process_item w od i q ref ph sp lc) \<noteq> ''pending''
         \<and> 0 \<le> total_latency (process_item w od i q ref ph sp lc)
         \<and> (error_msg (process_item w od i q ref ph sp lc) \<noteq> None
              \<longrightarrow> status (process_item w od i q ref ph sp lc) = ''error'')"
proof -
  have c: "\<And>k. perf_counter w 0 \<le> perf_counter w k" using mono by simp
  show ?thesis
  proof (cases "tts_call w od i q lc")
    case (Some e)
    show ?thesis using c[of 2] by (simp add: process_item_tts_fails[OF Some] new_result_def)
  next
    case None
    show ?thesis
    proof (cases "stt_call w od i q ph sp lc")
      case (Inl e)
      show ?thesis using c[of 4] by (simp add: process_item_stt_fails[OF None Inl] new_result_def)
    next
      case (Inr stt_raw)
      note stt = this
      show ?thesis
      proof (cases "ask_chatbase w (query_text sp (normalize_text (Some stt_raw)))")
        case (Inl e)
        show ?thesis
          using c[of 6] by (simp add: process_item_chatbase_fails[OF None stt Inl] new_result_def)
      next
        case (Inr cb)
        let ?r = "after_chatbase w od i q stt_raw cb (Suc 0) (new_result i q ref)"
        obtain x r' where eb: "eval_block w q ref ?r = (x, r')"
          by (cases "eval_block w q ref ?r")
        have k: "error_msg r' = None"
          using eval_block_keeps[OF eb] by (simp add: after_chatbase_fields new_result_def)
        show ?thesis
          using c[of 8] c[of 9] k
          by (cases x) (simp_all add: process_item_eval[OF None stt Inr] eb)
      qed
    qed
  qed
qed

lemma world_ok_judge:
  "judge_call world_ok p
     = Inr \<lparr> er_is_correct = Some True, er_score = Some 80,
             er_reason = Some ''Matches the reference.'' \<rparr>"
  by (simp add: judge_call_def world_ok_def judge_reply_text_def dq_def)

lemma world_ok_eval:
  "evaluate_answer_with_llm world_ok q ref a
     = Inr \<lparr> er_is_correct = Some True, er_score = Some 80,
             er_reason = Some ''Matches the reference.'' \<rparr>"
  by (simp add: evaluate_answer_with_llm_def require_env_ok world_ok_judge)

lemma w_ok:
  "tts_call world_ok ''audio'' 1 ''What do lions eat?'' ''zh-TW'' = None"
  "stt_call world_ok ''audio'' 1 ''What do lions eat?'' None ''google'' ''zh-TW''
     = Inr ''What do lions eat''"
  "ask_chatbase world_ok (query_text ''google'' (normalize_text (Some ''What do lions eat'')))
     = Inr \<lparr> answer_text = ''Lions eat meat.'', conversation_id = None \<rparr>"
  by (simp_all add: tts_call_def stt_call_def world_ok_def)

lemma world_ok_clock: "perf_counter world_ok = real"
  by (simp add: world_ok_def)

theorem process_item_status_invariant_witness:
  "error_msg (process_item world_tts_fails ''audio'' 1 ''What do lions eat?'' ''Meat'' None ''google'' ''zh-TW'')
     = Some ''Speech synthesis canceled''
   \<and> status (process_item world_tts_fails ''audio'' 1 ''What do lions eat?'' ''Meat'' None ''google'' ''zh-TW'')
       = ''error''
   \<and> 0 \<le> total_latency (process_item world_tts_fails ''audio'' 1 ''What do lions eat?'' ''Meat'' None ''google'' ''zh-TW'')"
proof -
  have m: "\<forall>a b. a \<le> b \<longrightarrow> perf_counter world_tts_fails a \<le> perf_counter world_tts_fails b"
    by (simp add: world_tts_fails_def world_ok_clock)
  have e: "error_msg (process_item world_tts_fails ''audio'' 1 ''What do lions eat?'' ''Meat'' None ''google'' ''zh-TW'')
     = Some ''Speech synthesis canceled''"
    by (simp add: process_item_tts_fails[OF w_tts])
  show ?thesis
    using process_item_status_invariant[OF m, of "''audio''" 1 "''What do lions eat?''" "''Meat''" None
        "''google''" "''zh-TW''"] e
    by simp
qed

text \<open>
  Claim C3, as the code has it. For an item whose reference answer is empty, if the three
  earlier stages succeed then \<open>process_item\<close> returns \<open>status = "success"\<close>,
  \<open>score = 0\<close>, no error message, and the reason \<open>"No reference answer provided"\<close>,
  with a capital N.
\<close>

theorem process_item_no_reference:
  assumes "tts_call w od i q lc = None" "stt_call w od i q ph sp lc = Inr stt_raw"
    "ask_chatbase w (query_text sp (normalize_text (Some stt_raw))) = Inr cb"
  shows "status (process_item w od i q [] ph sp lc) = ''success''
         \<and> score (process_item w od i q [] ph sp lc) = 0
         \<and> reason (process_item w od i q [] ph sp lc) = ''No reference answer provided''
         \<and> error_msg (process_item w od i q [] ph sp lc) = None"
  by (simp add: process_item_eval[OF assms] eval_block_def after_chatbase_def new_result_def)

theorem process_item_no_reference_witness:
  "tts_call world_ok ''audio'' 1 ''What do lions eat?'' ''zh-TW'' = None
   \<and> stt_call world_ok ''audio'' 1 ''What do lions eat?'' None ''google'' ''zh-TW''
        = Inr ''What do lions eat''
   \<and> ask_chatbase world_ok (query_text ''google'' (normalize_text (Some ''What do lions eat'')))
        = Inr \<lparr> answer_text = ''Lions eat meat.'', conversation_id = None \<rparr>
   \<and> status (process_item world_ok ''audio'' 1 ''What do lions eat?'' [] None ''google'' ''zh-TW'') = ''success''
   \<and> score (process_item world_ok ''audio'' 1 ''What do lions eat?'' [] None ''google'' ''zh-TW'') = 0
   \<and> reason (process_item world_ok ''audio'' 1 ''What do lions eat?'' [] None ''google'' ''zh-TW'')
        = ''No reference answer provided''"
  using process_item_no_reference[OF w_ok] w_ok by simp

text \<open>
  The reason is not the lower-case string \<open>"no reference answer provided"\<close>.
\<close>

theorem process_item_no_reference_counterexample:
  "tts_call world_ok ''audio'' 1 ''What do lions eat?'' ''zh-TW'' = None
   \<and> stt_call world_ok ''audio'' 1 ''What do lions eat?'' None ''google'' ''zh-TW''
        = Inr ''What do lions eat''
   \<and> ask_chatbase world_ok (query_text ''google'' (normalize_text (Some ''What do lions eat'')))
        = Inr \<lparr> answer_text = ''Lions eat meat.'', conversation_id = None \<rparr>
   \<and> reason (process_item world_ok ''audio'' 1 ''What do lions eat?'' [] None ''google'' ''zh-TW'')
        \<noteq> ''no reference answer provided''"
proof -
  have "reason (process_item world_ok ''audio'' 1 ''What do lions eat?'' [] None ''google'' ''zh-TW'')
          = ''No reference answer provided''"
    by (simp add: process_item_eval[OF w_ok] eval_block_def after_chatbase_def new_result_def)
  then show ?thesis using w_ok by simp
qed

lemma evaluate_on_exception:
  assumes "require_env w ''OPENAI_API_KEY'' = Inr api_key"
    "judge_call w (judge_prompt q ref a) = Inl e"
  shows "evaluate_answer_with_llm w q ref a =
           Inr \<lparr> er_is_correct = Some False, er_score = None,
                 er_reason = Some (''Evaluation failed: '' @ exc_str e) \<rparr>"
  using assms by (simp add: evaluate_answer_with_llm_def)

lemma evaluate_on_result:
  assumes "require_env w ''OPENAI_API_KEY'' = Inr api_key"
    "judge_call w (judge_prompt q ref a) = Inr d"
  shows "evaluate_answer_with_llm w q ref a = Inr d"
  using assms by (simp add: evaluate_answer_with_llm_def)

text \<open>
  Claim C1, as the code has it. With \<open>OPENAI_API_KEY\<close> configured,
  \<open>evaluate_answer_with_llm\<close> does not raise. When the request raises, when the content is
  empty, when \<open>json.loads\<close> raises, or when the parsed value is not a JSON object, it
  returns \<open>is_correct = False\<close> and the reason \<open>"Evaluation failed: "\<close> followed by
  the text of the exception. When the reply is a JSON object, no failure is reported: each
  of the three keys that is absent gets its default (\<open>False\<close>, \<open>0\<close>,
  \<open>"No reason provided"\<close>) and each key that is present is passed on.
\<close>

theorem evaluate_answer_with_llm_outcomes:
  assumes key: "require_env w ''OPENAI_API_KEY'' = Inr api_key"
  shows "(\<exists>d. evaluate_answer_with_llm w q ref a = Inr d)
   \<and> (chat_completions_create w (judge_prompt q ref a) = Inl e \<longrightarrow>
        (\<exists>d. evaluate_answer_with_llm w q ref a = Inr d \<and> er_is_correct d = Some False
              \<and> er_reason d = Some (''Evaluation failed: '' @ exc_str e)))
   \<and> (chat_completions_create w (judge_prompt q ref a) = Inr None
        \<or> chat_completions_create w (judge_prompt q ref a) = Inr (Some []) \<longrightarrow>
        (\<exists>d. evaluate_answer_with_llm w q ref a = Inr d \<and> er_is_correct d = Some False
              \<and> er_reason d = Some ''Evaluation failed: Empty response from OpenAI''))
   \<and> (chat_completions_create w (judge_prompt q ref a) = Inr (Some c) \<and> c \<noteq> []
        \<and> json_loads w c = Inl e \<longrightarrow>
        (\<exists>d. evaluate_answer_with_llm w q ref a = Inr d \<and> er_is_correct d = Some False
              \<and> er_reason d = Some (''Evaluation failed: '' @ exc_str e)))
   \<and> (chat_completions_create w (judge_prompt q ref a) = Inr (Some c) \<and> c \<noteq> []
        \<and> json_loads w c = Inr (JsonOther ty) \<longrightarrow>
        (\<exists>d. evaluate_answer_with_llm w q ref a = Inr d \<and> er_is_correct d = Some False
              \<and> er_reason d = Some (''Evaluation failed: '' @ sq @ ty @ sq
                                       @ '' object has no attribute '' @ sq @ ''get'' @ sq)))
   \<and> (chat_completions_create w (judge_prompt q ref a) = Inr (Some c) \<and> c \<noteq> []
        \<and> json_loads w c = Inr (JsonObject obj) \<longrightarrow>
        evaluate_answer_with_llm w q ref a =
          Inr \<lparr> er_is_correct = Some (case jo_is_correct obj of None \<Rightarrow> False | Some b \<Rightarrow> b),
                er_score = Some (case jo_score obj of None \<Rightarrow> 0 | Some n \<Rightarrow> n),
                er_reason = Some (case jo_reason obj of
                                    None \<Rightarrow> ''No reason provided'' | Some r \<Rightarrow> r) \<rparr>)"
proof (intro conjI impI)
  show "\<exists>d. evaluate_answer_with_llm w q ref a = Inr d"
    using key by (auto simp: evaluate_answer_with_llm_def split: sum.splits)
next
  assume "chat_completions_create w (judge_prompt q ref a) = Inl e"
  then have "judge_call w (judge_prompt q ref a) = Inl e"
    by (simp add: judge_call_def)
  from evaluate_on_exception[OF key this]
  show "\<exists>d. evaluate_answer_with_llm w q ref a = Inr d \<and> er_is_correct d = Some False
              \<and> er_reason d = Some (''Evaluation failed: '' @ exc_str e)"
    by simp
next
  assume "chat_completions_create w (judge_prompt q ref a) = Inr None
        \<or> chat_completions_create w (judge_prompt q ref a) = Inr (Some [])"
  then have "judge_call w (judge_prompt q ref a) = Inl (Exn ''ValueError'' ''Empty response from OpenAI'')"
    by (auto simp: judge_call_def)
  from evaluate_on_exception[OF key this]
  show "\<exists>d. evaluate_answer_with_llm w q ref a = Inr d \<and> er_is_correct d = Some False
              \<and> er_reason d = Some ''Evaluation failed: Empty response from OpenAI''"
    by simp
next
  assume "chat_completions_create w (judge_prompt q ref a) = Inr (Some c) \<and> c \<noteq> []
        \<and> json_loads w c = Inl e"
  then have "judge_call w (judge_prompt q ref a) = Inl e"
    by (simp add: judge_call_def)
  from evaluate_on_exception[OF key this]
  show "\<exists>d. evaluate_answer_with_llm w q ref a = Inr d \<and> er_is_correct d = Some False
              \<and> er_reason d = Some (''Evaluation failed: '' @ exc_str e)"
    by simp
next
  assume "chat_completions_create w (judge_prompt q ref a) = Inr (Some c) \<and> c \<noteq> []
        \<and> json_loads w c = Inr (JsonOther ty)"
  then have "judge_call w (judge_prompt q ref a) =
      Inl (Exn ''AttributeError'' (sq @ ty @ sq @ '' object has no attribute '' @ sq @ ''get'' @ sq))"
    by (simp add: judge_call_def)
  from evaluate_on_exception[OF key this]
  show "\<exists>d. evaluate_answer_with_llm w q ref a = Inr d \<and> er_is_correct d = Some False
              \<and> er_reason d = Some (''Evaluation failed: '' @ sq @ ty @ sq
                                       @ '' object has no attribute '' @ sq @ ''get'' @ sq)"
    by simp
next
  assume "chat_completions_create w (judge_prompt q ref a) = Inr (Some c) \<and> c \<noteq> []
        \<and> json_loads w c = Inr (JsonObject obj)"
  then have "judge_call w (judge_prompt q ref a) =
          Inr \<lparr> er_is_correct = Some (case jo_is_correct obj of None \<Rightarrow> False | Some b \<Rightarrow> b),
                er_score = Some (case jo_score obj of None \<Rightarrow> 0 | Some n \<Rightarrow> n),
                er_reason = Some (case jo_reason obj of
                                    None \<Rightarrow> ''No reason provided'' | Some r \<Rightarrow> r) \<rparr>"
    by (simp add: judge_call_def)
  from evaluate_on_result[OF key this]
  show "evaluate_answer_with_llm w q ref a =
          Inr \<lparr> er_is_correct = Some (case jo_is_correct obj of None \<Rightarrow> False | Some b \<Rightarrow> b),
                er_score = Some (case jo_score obj of None \<Rightarrow> 0 | Some n \<Rightarrow> n),
                er_reason = Some (case jo_reason obj of
                                    None \<Rightarrow> ''No reason provided'' | Some r \<Rightarrow> r) \<rparr>" .
qed

text \<open>The dictionary of the \<open>except\<close> branch has no key \<open>score\<close>.\<close>

lemma evaluate_failure_has_no_score:
  assumes "require_env w ''OPENAI_API_KEY'' = Inr api_key"
    "judge_call w (judge_prompt q ref a) = Inl e"
  shows "\<exists>d. evaluate_answer_with_llm w q ref a = Inr d \<and> er_score d = None"
  using evaluate_on_exception[OF assms] by simp

lemma key_of_update:
  "getenv w = getenv world_ok \<Longrightarrow> require_env w ''OPENAI_API_KEY'' = Inr ''sk-test''"
  using require_env_ok by (simp add: require_env_def)

lemma keys:
  "require_env world_judge_fails ''OPENAI_API_KEY'' = Inr ''sk-test''"
  "require_env world_empty_reply ''OPENAI_API_KEY'' = Inr ''sk-test''"
  "require_env world_malformed_reply ''OPENAI_API_KEY'' = Inr ''sk-test''"
  "require_env world_list_reply ''OPENAI_API_KEY'' = Inr ''sk-test''"
  "require_env world_missing_fields ''OPENAI_API_KEY'' = Inr ''sk-test''"
  by (rule key_of_update, simp add: world_judge_fails_def world_empty_reply_def
      world_malformed_reply_def world_list_reply_def world_missing_fields_def)+

theorem evaluate_answer_with_llm_outcomes_witness:
  "require_env world_judge_fails ''OPENAI_API_KEY'' = Inr ''sk-test''
   \<and> chat_completions_create world_judge_fails (judge_prompt ''Q'' ''R'' ''A'')
        = Inl (Exn ''APIConnectionError'' ''Connection error.'')
   \<and> (\<exists>d. evaluate_answer_with_llm world_judge_fails ''Q'' ''R'' ''A'' = Inr d
          \<and> er_is_correct d = Some False
          \<and> er_reason d = Some ''Evaluation failed: Connection error.'')
   \<and> chat_completions_create world_empty_reply (judge_prompt ''Q'' ''R'' ''A'') = Inr None
   \<and> (\<exists>d. evaluate_answer_with_llm world_empty_reply ''Q'' ''R'' ''A'' = Inr d
          \<and> er_is_correct d = Some False
          \<and> er_reason d = Some ''Evaluation failed: Empty response from OpenAI'')
   \<and> json_loads world_malformed_reply ''Sorry, I cannot''
        = Inl (Exn ''JSONDecodeError'' ''Expecting value: line 1 column 1 (char 0)'')
   \<and> (\<exists>d. evaluate_answer_with_llm world_malformed_reply ''Q'' ''R'' ''A'' = Inr d
          \<and> er_is_correct d = Some False
          \<and> er_reason d = Some ''Evaluation failed: Expecting value: line 1 column 1 (char 0)'')
   \<and> json_loads world_list_reply ''[1, 2]'' = Inr (JsonOther ''list'')
   \<and> (\<exists>d. evaluate_answer_with_llm world_list_reply ''Q'' ''R'' ''A'' = Inr d
          \<and> er_is_correct d = Some False
          \<and> er_reason d = Some (''Evaluation failed: '' @ sq @ ''list'' @ sq
                                   @ '' object has no attribute '' @ sq @ ''get'' @ sq))
   \<and> json_loads world_missing_fields (''{'' @ dq @ ''is_correct'' @ dq @ '': true}'')
        = Inr (JsonObject \<lparr> jo_is_correct = Some True, jo_score = None, jo_reason = None \<rparr>)
   \<and> evaluate_answer_with_llm world_missing_fields ''Q'' ''R'' ''A''
        = Inr \<lparr> er_is_correct = Some True, er_score = Some 0,
                er_reason = Some ''No reason provided'' \<rparr>"
proof -
  have b: "chat_completions_create world_judge_fails (judge_prompt ''Q'' ''R'' ''A'')
        = Inl (Exn ''APIConnectionError'' ''Connection error.'')"
    by (simp add: world_judge_fails_def)
  have c: "chat_completions_create world_empty_reply (judge_prompt ''Q'' ''R'' ''A'') = Inr None"
    by (simp add: world_empty_reply_def)
  have d: "chat_completions_create world_malformed_reply (judge_prompt ''Q'' ''R'' ''A'')
             = Inr (Some ''Sorry, I cannot'') \<and> ''Sorry, I cannot'' \<noteq> []
           \<and> json_loads world_malformed_reply ''Sorry, I cannot''
             = Inl (Exn ''JSONDecodeError'' ''Expecting value: line 1 column 1 (char 0)'')"
    by (simp add: world_malformed_reply_def)
  have e: "chat_completions_create world_list_reply (judge_prompt ''Q'' ''R'' ''A'')
             = Inr (Some ''[1, 2]'') \<and> ''[1, 2]'' \<noteq> []
           \<and> json_loads world_list_reply ''[1, 2]'' = Inr (JsonOther ''list'')"
    by (simp add: world_list_reply_def)
  have f: "chat_completions_create world_missing_fields (judge_prompt ''Q'' ''R'' ''A'')
             = Inr (Some (''{'' @ dq @ ''is_correct'' @ dq @ '': true}''))
           \<and> ''{'' @ dq @ ''is_correct'' @ dq @ '': true}'' \<noteq> []
           \<and> json_loads world_missing_fields (''{'' @ dq @ ''is_correct'' @ dq @ '': true}'')
             = Inr (JsonObject \<lparr> jo_is_correct = Some True, jo_score = None, jo_reason = None \<rparr>)"
    by (simp add: world_missing_fields_def)
  note t1 = evaluate_answer_with_llm_outcomes[OF keys(1), of "''Q''" "''R''" "''A''",
      THEN conjunct2, THEN conjunct1, rule_format, OF b]
  note t2 = evaluate_answer_with_llm_outcomes[OF keys(2), of "''Q''" "''R''" "''A''",
      THEN conjunct2, THEN conjunct2, THEN conjunct1, rule_format, OF disjI1[OF c]]
  note t3 = evaluate_answer_with_llm_outcomes[OF keys(3), of "''Q''" "''R''" "''A''",
      THEN conjunct2, THEN conjunct2, THEN conjunct2, THEN conjunct1, rule_format, OF d]
  note t4 = evaluate_answer_with_llm_outcomes[OF keys(4), of "''Q''" "''R''" "''A''",
      THEN conjunct2, THEN conjunct2, THEN conjunct2, THEN conjunct2, THEN conjunct1,
      rule_format, OF e]
  note t5 = evaluate_answer_with_llm_outcomes[OF keys(5), of "''Q''" "''R''" "''A''",
      THEN conjunct2, THEN conjunct2, THEN conjunct2, THEN conjunct2, THEN conjunct2,
      rule_format, OF f]
  show ?thesis
    using keys(1) b c d e f t1 t2 t3 t4 t5 by simp
qed

text \<open>
  A reply with missing fields, \<open>{"is_correct": true}\<close>: the judgment returned has
  \<open>is_correct = True\<close> and a reason that names no failure.
\<close>

theorem evaluate_answer_with_llm_counterexample:
  "require_env world_missing_fields ''OPENAI_API_KEY'' = Inr ''sk-test''
   \<and> json_loads world_missing_fields (''{'' @ dq @ ''is_correct'' @ dq @ '': true}'')
        = Inr (JsonObject \<lparr> jo_is_correct = Some True, jo_score = None, jo_reason = None \<rparr>)
   \<and> evaluate_answer_with_llm world_missing_fields ''Q'' ''R'' ''A''
        = Inr \<lparr> er_is_correct = Some True, er_score = Some 0,
                er_reason = Some ''No reason provided'' \<rparr>"
proof -
  have "judge_call world_missing_fields (judge_prompt ''Q'' ''R'' ''A'')
        = Inr \<lparr> er_is_correct = Some True, er_score = Some 0,
                er_reason = Some ''No reason provided'' \<rparr>"
    by (simp add: judge_call_def world_missing_fields_def dq_def)
  from evaluate_on_result[OF keys(5) this] show ?thesis
    using keys(5) by (simp add: world_missing_fields_def)
qed

section \<open>Claims about server.py\<close>

lemma sums_snoc:
  "success_score_sum (rs @ [r]) =
     (if status r = ''success'' then success_score_sum rs + score r else success_score_sum rs)"
  "success_latency_sum (rs @ [r]) =
     (if status r = ''success'' then success_latency_sum rs + total_latency r
      else success_latency_sum rs)"
  by (simp_all add: success_score_sum_def success_latency_sum_def)

lemma length_item_results: "length (item_results worlds hints provider items) = length items"
  by (simp add: item_results_def)

lemma nth_item_results:
  "j < length items \<Longrightarrow>
     item_results worlds hints provider items ! j = item_result worlds hints provider j (items ! j)"
  by (simp add: item_results_def)

text \<open>One turn of the loop on an item that has its three keys.\<close>

lemma item_loop_turn:
  assumes "item_id item = Some iid" "item_question item = Some q"
    "item_reference_answer item = Some ref"
    and "res = process_item (worlds k) ''audio'' iid q ref (Some hints) provider
               (if provider = ''openai'' then ''en-US'' else ''zh-TW'')"
    and "st1 = st\<lparr> processed := processed st + 1,
                     total_score := (if status res = ''success''
                                     then total_score st + score res else total_score st),
                     total_latency_sum := (if status res = ''success''
                                     then total_latency_sum st + total_latency res
                                     else total_latency_sum st),
                     current_results := current_results st @ [res] \<rparr>"
    and "msg = MsgUpdate (result_json_of res)
                 (make_stats (processed st1) n_total (total_score st1) (total_latency_sum st1))"
  shows "item_loop sock worlds hints provider n_total k (item # rest) st =
           (case ws_send_json sock (sent st1) msg of
              Some e \<Rightarrow> (Some e, st1)
            | None \<Rightarrow> item_loop sock worlds hints provider n_total (k + 1) rest
                        (st1\<lparr> sent := sent st1 @ [msg] \<rparr>))"
  unfolding assms(4-6) by (simp only: item_loop.simps assms(1-3) option.case Let_def)

lemma item_loop_missing_key:
  assumes "\<not> well_formed item"
  shows "\<exists>e. item_loop sock worlds hints provider n_total k (item # rest) st = (Some e, st)"
proof (cases "item_id item")
  case None
  then show ?thesis by (simp only: item_loop.simps option.case Let_def) blast
next
  case i: (Some iid)
  show ?thesis
  proof (cases "item_question item")
    case None
    then show ?thesis by (simp only: item_loop.simps option.case Let_def i) blast
  next
    case q: (Some q)
    then have "item_reference_answer item = None"
      using assms i by (simp add: well_formed_def)
    then show ?thesis by (simp only: item_loop.simps option.case Let_def i q) blast
  qed
qed

lemma loop_invariant_turn:
  assumes jr: "j < length rs"
  shows "(loop_invariant n_total results0 rs j)\<lparr>
            processed := processed (loop_invariant n_total results0 rs j) + 1,
            total_score := (if status (rs ! j) = ''success''
                            then total_score (loop_invariant n_total results0 rs j) + score (rs ! j)
                            else total_score (loop_invariant n_total results0 rs j)),
            total_latency_sum := (if status (rs ! j) = ''success''
                            then total_latency_sum (loop_invariant n_total results0 rs j)
                                   + total_latency (rs ! j)
                            else total_latency_sum (loop_invariant n_total results0 rs j)),
            current_results := current_results (loop_invariant n_total results0 rs j) @ [rs ! j] \<rparr>
         = (loop_invariant n_total results0 rs (Suc j))\<lparr>
              sent := map (update_message n_total rs) [0..<j] \<rparr>"
proof -
  have tk: "take (Suc j) rs = take j rs @ [rs ! j]"
    using jr by (rule take_Suc_conv_app_nth)
  show ?thesis
    by (simp add: loop_invariant_def tk sums_snoc)
qed

lemma loop_invariant_fields:
  "processed (loop_invariant n_total results0 rs j) = int j"
  "total_score (loop_invariant n_total results0 rs j) = success_score_sum (take j rs)"
  "total_latency_sum (loop_invariant n_total results0 rs j) = success_latency_sum (take j rs)"
  "current_results (loop_invariant n_total results0 rs j) = results0 @ take j rs"
  "sent (loop_invariant n_total results0 rs j) = map (update_message n_total rs) [0..<j]"
  by (simp_all add: loop_invariant_def)

text \<open>
  From the invariant at \<open>j\<close>, a turn on a well-formed item ends the loop if the send
  fails, and otherwise reaches the invariant at \<open>j + 1\<close> with the update of item \<open>j\<close> sent.
\<close>

lemma item_loop_step:
  assumes j: "j < length items"
    and rs: "rs = item_results worlds hints provider items"
    and wf: "well_formed (items ! j)"
  shows "item_loop sock worlds hints provider n_total j (drop j items)
           (loop_invariant n_total results0 rs j)
         = (case ws_send_json sock (map (update_message n_total rs) [0..<j])
                  (update_message n_total rs j) of
              Some e \<Rightarrow> (Some e, (loop_invariant n_total results0 rs (Suc j))\<lparr>
                                    sent := map (update_message n_total rs) [0..<j] \<rparr>)
            | None \<Rightarrow> item_loop sock worlds hints provider n_total (Suc j) (drop (Suc j) items)
                        (loop_invariant n_total results0 rs (Suc j)))"
proof -
  let ?inv = "loop_invariant n_total results0 rs"
  have dr: "drop j items = items ! j # drop (Suc j) items"
    using j by (simp add: Cons_nth_drop_Suc)
  obtain iid q ref where f: "item_id (items ! j) = Some iid"
    "item_question (items ! j) = Some q" "item_reference_answer (items ! j) = Some ref"
    using wf by (auto simp: well_formed_def)
  have jr: "j < length rs" using j rs by (simp add: length_item_results)
  have res: "rs ! j = process_item (worlds j) ''audio'' iid q ref (Some hints) provider
             (if provider = ''openai'' then ''en-US'' else ''zh-TW'')"
    using j rs f by (simp add: nth_item_results item_result_def)
  define st1 where "st1 = (?inv (Suc j))\<lparr> sent := map (update_message n_total rs) [0..<j] \<rparr>"
  have st1: "st1 = (?inv j)\<lparr>
          processed := processed (?inv j) + 1,
          total_score := (if status (rs ! j) = ''success''
                          then total_score (?inv j) + score (rs ! j) else total_score (?inv j)),
          total_latency_sum := (if status (rs ! j) = ''success''
                          then total_latency_sum (?inv j) + total_latency (rs ! j)
                          else total_latency_sum (?inv j)),
          current_results := current_results (?inv j) @ [rs ! j] \<rparr>"
    unfolding st1_def by (rule loop_invariant_turn[OF jr, symmetric])
  have msg: "update_message n_total rs j = MsgUpdate (result_json_of (rs ! j))
               (make_stats (processed st1) n_total (total_score st1) (total_latency_sum st1))"
    by (simp add: update_message_def st1_def loop_invariant_def)
  have s1: "sent st1 = map (update_message n_total rs) [0..<j]"
    by (simp add: st1_def)
  have nxt: "st1\<lparr> sent := map (update_message n_total rs) [0..<j]
                          @ [update_message n_total rs j] \<rparr> = ?inv (Suc j)"
    by (simp add: st1_def loop_invariant_def)
  have j1: "j + 1 = Suc j" by simp
  show ?thesis
    using item_loop_turn[where item = "items ! j" and iid = iid and q = q and ref = ref
        and res = "rs ! j" and worlds = worlds and k = j and hints = hints
        and provider = provider and st = "?inv j" and ?st1.0 = st1
        and msg = "update_message n_total rs j" and n_total = n_total and sock = sock
        and rest = "drop (Suc j) items", OF f res st1 msg, folded dr, unfolded s1 nxt j1]
    unfolding st1_def .
qed

lemma loop_invariant_0:
  "loop_invariant n_total results0 rs 0 =
     \<lparr> processed = 0, total_score = 0, total_latency_sum = 0,
       current_results = results0, sent = [] \<rparr>"
  by (simp add: loop_invariant_def success_score_sum_def success_latency_sum_def)

text \<open>Whatever happens, the messages the loop has sent are the updates of a prefix of the items.\<close>

lemma item_loop_sent:
  assumes "j \<le> length items" and rs: "rs = item_results worlds hints provider items"
  shows "\<exists>x st' m. item_loop sock worlds hints provider n_total j (drop j items)
                      (loop_invariant n_total results0 rs j) = (x, st')
                   \<and> m \<le> length items \<and> sent st' = map (update_message n_total rs) [0..<m]"
  using assms(1)
proof (induction "length items - j" arbitrary: j)
  case 0
  then have "j = length items" by simp
  then show ?case by (auto simp: loop_invariant_fields)
next
  case (Suc d)
  then have j: "j < length items" by simp
  have d: "d = length items - Suc j" using Suc.hyps(2) by simp
  have dr: "drop j items = items ! j # drop (Suc j) items"
    using j by (simp add: Cons_nth_drop_Suc)
  show ?case
  proof (cases "well_formed (items ! j)")
    case False
    from item_loop_missing_key[OF False, of sock worlds hints provider n_total j
        "drop (Suc j) items" "loop_invariant n_total results0 rs j"]
    obtain e where "item_loop sock worlds hints provider n_total j (drop j items)
        (loop_invariant n_total results0 rs j) = (Some e, loop_invariant n_total results0 rs j)"
      unfolding dr by blast
    then show ?thesis using j loop_invariant_fields(5)[of n_total results0 rs j]
      by (meson less_imp_le)
  next
    case True
    note step = item_loop_step[OF j rs True, of sock n_total results0]
    show ?thesis
    proof (cases "ws_send_json sock (map (update_message n_total rs) [0..<j])
                    (update_message n_total rs j)")
      case None
      then show ?thesis using step Suc.hyps(1)[OF d] j by simp
    next
      case (Some e)
      then have "item_loop sock worlds hints provider n_total j (drop j items)
          (loop_invariant n_total results0 rs j)
        = (Some e, (loop_invariant n_total results0 rs (Suc j))\<lparr>
                      sent := map (update_message n_total rs) [0..<j] \<rparr>)"
        using step by simp
      moreover have "sent ((loop_invariant n_total results0 rs (Suc j))\<lparr>
                      sent := map (update_message n_total rs) [0..<j] \<rparr>)
                     = map (update_message n_total rs) [0..<j]" by simp
      ultimately show ?thesis using j by (meson less_imp_le)
    qed
  qed
qed

text \<open>With well-formed items and a connection that takes every message, the loop runs through.\<close>

lemma item_loop_complete:
  assumes "j \<le> length items" and rs: "rs = item_results worlds hints provider items"
    and wf: "\<forall>item \<in> set items. well_formed item"
    and snd: "\<forall>h m. ws_send_json sock h m = None"
  shows "item_loop sock worlds hints provider n_total j (drop j items)
           (loop_invariant n_total results0 rs j)
         = (None, loop_invariant n_total results0 rs (length items))"
  using assms(1)
proof (induction "length items - j" arbitrary: j)
  case 0
  then have "j = length items" by simp
  then show ?case by simp
next
  case (Suc d)
  then have j: "j < length items" by simp
  have d: "d = length items - Suc j" using Suc.hyps(2) by simp
  have "well_formed (items ! j)" using wf j by simp
  from item_loop_step[OF j rs this, of sock n_total results0] snd Suc.hyps(1)[OF d] j
  show ?case by simp
qed

lemma handler_sent:
  assumes "endpoint_body sock worlds hints provider st0 = (x, st)"
  shows "\<exists>tail. run_sent (case (x, st) of
                (None, st) \<Rightarrow>
                  \<lparr> run_sent = sent st, run_results = current_results st, run_raised = None \<rparr>
              | (Some e, st) \<Rightarrow>
                  if exc_class e = ''WebSocketDisconnect''
                  then \<lparr> run_sent = sent st, run_results = current_results st, run_raised = None \<rparr>
                  else (case ws_send_json sock (sent st) (MsgError (exc_str e)) of
                          None \<Rightarrow> \<lparr> run_sent = sent st @ [MsgError (exc_str e)],
                                     run_results = current_results st, run_raised = None \<rparr>
                        | Some e' \<Rightarrow> \<lparr> run_sent = sent st, run_results = current_results st,
                                        run_raised = Some e' \<rparr>)) = sent st @ tail
           \<and> (\<forall>m \<in> set tail. \<not> is_update m)"
proof (cases x)
  case None
  then show ?thesis by simp
next
  case (Some e)
  show ?thesis
  proof (cases "exc_class e = ''WebSocketDisconnect''")
    case True
    then show ?thesis using Some by simp
  next
    case False
    show ?thesis
    proof (cases "ws_send_json sock (sent st) (MsgError (exc_str e))")
      case None
      have "\<forall>m \<in> set [MsgError (exc_str e)]. \<not> is_update m" by (simp add: is_update_def)
      then show ?thesis using Some False None by auto
    next
      case (Some e')
      then show ?thesis using \<open>x = Some e\<close> False by simp
    qed
  qed
qed

lemma send_msg_sent:
  assumes "\<not> is_update msg" "send_msg sock msg st = (x, st')"
  shows "\<exists>tail. sent st' = sent st @ tail \<and> (\<forall>m \<in> set tail. \<not> is_update m)"
proof (cases "ws_send_json sock (sent st) msg")
  case None
  then have "sent st' = sent st @ [msg]" using assms(2) by (auto simp: send_msg_def)
  then show ?thesis using assms(1) by simp
next
  case (Some e)
  then have "sent st' = sent st @ []" using assms(2) by (auto simp: send_msg_def)
  then show ?thesis by (metis empty_iff list.set(1))
qed

lemma endpoint_body_sent:
  assumes recv: "ws_receive_json sock = Inr (RecvDict (Some items))"
    and rs: "rs = item_results worlds hints provider items"
    and st0: "st0 = \<lparr> processed = 0, total_score = 0, total_latency_sum = 0,
                     current_results = results0, sent = [] \<rparr>"
    and body: "endpoint_body sock worlds hints provider st0 = (x, st)"
  shows "\<exists>m tail. m \<le> length items
           \<and> sent st = map (update_message (int (length items)) rs) [0..<m] @ tail
           \<and> (\<forall>msg \<in> set tail. \<not> is_update msg)"
proof (cases "items = []")
  case True
  then have "send_msg sock (MsgError ''No items to process'') st0 = (x, st)"
    using body recv by (simp add: endpoint_body_def)
  from send_msg_sent[OF _ this] obtain tail where
    "sent st = sent st0 @ tail \<and> (\<forall>m \<in> set tail. \<not> is_update m)"
    by (auto simp: is_update_def)
  then have "sent st = map (update_message (int (length items)) rs) [0..<0] @ tail
      \<and> (\<forall>m \<in> set tail. \<not> is_update m)"
    by (simp add: st0)
  then show ?thesis by blast
next
  case False
  let ?n = "int (length items)"
  have inv0: "loop_invariant ?n results0 rs 0 = st0"
    by (simp add: loop_invariant_0 st0)
  have "0 \<le> length items" by simp
  from item_loop_sent[OF this rs, of sock ?n results0]
  obtain y st' m where l: "item_loop sock worlds hints provider ?n 0 items st0 = (y, st')"
    and m: "m \<le> length items" and s: "sent st' = map (update_message ?n rs) [0..<m]"
    unfolding inv0 drop_0 by blast
  show ?thesis
  proof (cases y)
    case (Some e)
    then have "st = st'" using body recv False l by (simp add: endpoint_body_def)
    then have "sent st = map (update_message ?n rs) [0..<m] @ []" using s by simp
    then show ?thesis using m by (metis empty_iff list.set(1))
  next
    case None
    then have "send_msg sock MsgComplete st' = (x, st)"
      using body recv False l by (simp add: endpoint_body_def)
    from send_msg_sent[OF _ this] obtain tail where
      "sent st = sent st' @ tail \<and> (\<forall>m \<in> set tail. \<not> is_update m)"
      by (auto simp: is_update_def)
    then show ?thesis using s m by auto
  qed
qed

text \<open>
  In every run, the messages sent are the updates of the first \<open>m\<close> items, in order,
  followed by messages that are not updates.
\<close>

lemma endpoint_sent_prefix:
  assumes recv: "ws_receive_json sock = Inr (RecvDict (Some items))"
    and rs: "rs = item_results worlds hints provider items"
  shows "\<exists>m tail. m \<le> length items
           \<and> run_sent (websocket_endpoint sock worlds hints provider results0)
               = map (update_message (int (length items)) rs) [0..<m] @ tail
           \<and> (\<forall>msg \<in> set tail. \<not> is_update msg)"
proof (cases "ws_accept sock")
  case (Some e)
  then have "run_sent (websocket_endpoint sock worlds hints provider results0)
      = map (update_message (int (length items)) rs) [0..<0] @ []"
    by (simp add: websocket_endpoint_def)
  then show ?thesis by (metis empty_iff list.set(1) le0)
next
  case None
  define st0 where "st0 = \<lparr> processed = 0, total_score = 0, total_latency_sum = 0,
                     current_results = results0, sent = [] \<rparr>"
  obtain x st where body: "endpoint_body sock worlds hints provider st0 = (x, st)"
    by (cases "endpoint_body sock worlds hints provider st0")
  from endpoint_body_sent[OF recv rs st0_def body] obtain m t1 where
    m: "m \<le> length items"
    and s: "sent st = map (update_message (int (length items)) rs) [0..<m] @ t1"
    and t1: "\<forall>msg \<in> set t1. \<not> is_update msg" by blast
  from handler_sent[OF body] obtain t2 where
    r: "run_sent (websocket_endpoint sock worlds hints provider results0) = sent st @ t2"
    and t2: "\<forall>m \<in> set t2. \<not> is_update m"
    by (auto simp: websocket_endpoint_def None st0_def[symmetric] body Let_def)
  have "run_sent (websocket_endpoint sock worlds hints provider results0)
      = map (update_message (int (length items)) rs) [0..<m] @ (t1 @ t2)"
    using r s by simp
  moreover have "\<forall>msg \<in> set (t1 @ t2). \<not> is_update msg" using t1 t2 by auto
  ultimately show ?thesis using m by blast
qed

text \<open>The run in which nothing fails around the pipeline.\<close>

lemma endpoint_run_complete:
  assumes acc: "ws_accept sock = None"
    and recv: "ws_receive_json sock = Inr (RecvDict (Some items))"
    and ne: "items \<noteq> []"
    and wf: "\<forall>item \<in> set items. well_formed item"
    and snd: "\<forall>h m. ws_send_json sock h m = None"
    and rs: "rs = item_results worlds hints provider items"
  shows "websocket_endpoint sock worlds hints provider results0 =
           \<lparr> run_sent = map (update_message (int (length items)) rs) [0..<length items]
                          @ [MsgComplete],
             run_results = results0 @ rs, run_raised = None \<rparr>"
proof -
  let ?n = "int (length items)"
  have l: "item_loop sock worlds hints provider ?n 0 items
             \<lparr> processed = 0, total_score = 0, total_latency_sum = 0,
               current_results = results0, sent = [] \<rparr>
           = (None, loop_invariant ?n results0 rs (length items))"
    using item_loop_complete[OF _ rs wf snd, of 0 ?n results0]
    by (simp add: loop_invariant_0)
  have tk: "take (length items) rs = rs"
    using rs by (simp add: length_item_results)
  show ?thesis
    using acc recv ne snd
    by (simp add: websocket_endpoint_def endpoint_body_def l send_msg_def loop_invariant_def tk)
qed

lemma update_message_stats:
  "update_message n_total rs k = MsgUpdate rj st \<Longrightarrow>
     rj = result_json_of (rs ! k)
     \<and> s_processed st = int (Suc k) \<and> s_total st = n_total
     \<and> s_avg_score st = real_of_int (success_score_sum (take (Suc k) rs)) / real (Suc k)
     \<and> s_avg_latency st = success_latency_sum (take (Suc k) rs) / real (Suc k)"
  by (auto simp: update_message_def make_stats_def)

text \<open>
  The statistics of the update that follows item \<open>k + 1\<close>, in every run: the sums of
  \<open>score\<close> and of \<open>total_latency\<close> over the items so far whose status is \<open>"success"\<close>,
  each divided by \<open>processed\<close>, the number \<open>k + 1\<close> of all items so far. \<open>processed\<close> is
  at least 1 whenever statistics are sent.
\<close>

lemma update_stats_value:
  assumes recv: "ws_receive_json sock = Inr (RecvDict (Some items))"
    and k: "k < length (run_sent (websocket_endpoint sock worlds hints provider results0))"
    and upd: "run_sent (websocket_endpoint sock worlds hints provider results0) ! k = MsgUpdate rj st"
  shows "s_processed st = int (Suc k)
     \<and> s_avg_score st =
         real_of_int (success_score_sum (take (Suc k) (item_results worlds hints provider items)))
           / real (Suc k)
     \<and> s_avg_latency st =
         success_latency_sum (take (Suc k) (item_results worlds hints provider items))
           / real (Suc k)"
proof -
  let ?rs = "item_results worlds hints provider items"
  let ?sent = "run_sent (websocket_endpoint sock worlds hints provider results0)"
  from endpoint_sent_prefix[OF recv refl, of worlds hints provider results0]
  obtain m tail where m: "m \<le> length items"
    and s: "?sent = map (update_message (int (length items)) ?rs) [0..<m] @ tail"
    and t: "\<forall>msg \<in> set tail. \<not> is_update msg" by blast
  have "k < m"
  proof (rule ccontr)
    assume "\<not> k < m"
    then have "?sent ! k = tail ! (k - m)" "k - m < length tail"
      using s k by (simp_all add: nth_append)
    then have "\<not> is_update (?sent ! k)" using t by (metis nth_mem)
    then show False using upd by (simp add: is_update_def)
  qed
  then have "?sent ! k = update_message (int (length items)) ?rs k"
    using s by (simp add: nth_append)
  then have "update_message (int (length items)) ?rs k = MsgUpdate rj st"
    using upd by simp
  from update_message_stats[OF this] show ?thesis
    by simp
qed

lemma eval_block_identity:
  "eval_block w q ref result = (x, result') \<Longrightarrow>
     id' result' = id' result \<and> question result' = question result
     \<and> reference_answer result' = reference_answer result"
  by (auto simp: eval_block_def split: sum.splits option.splits if_splits)

text \<open>The result echoes the identity of the item.\<close>

lemma process_item_identity:
  "id' (process_item w od i q ref ph sp lc) = i
   \<and> question (process_item w od i q ref ph sp lc) = q
   \<and> reference_answer (process_item w od i q ref ph sp lc) = ref"
proof (cases "tts_call w od i q lc")
  case (Some e)
  show ?thesis by (simp add: process_item_tts_fails[OF Some] new_result_def)
next
  case None
  show ?thesis
  proof (cases "stt_call w od i q ph sp lc")
    case (Inl e)
    show ?thesis by (simp add: process_item_stt_fails[OF None Inl] new_result_def)
  next
    case (Inr stt_raw)
    note stt = this
    show ?thesis
    proof (cases "ask_chatbase w (query_text sp (normalize_text (Some stt_raw)))")
      case (Inl e)
      show ?thesis by (simp add: process_item_chatbase_fails[OF None stt Inl] new_result_def)
    next
      case (Inr cb)
      let ?r = "after_chatbase w od i q stt_raw cb (Suc 0) (new_result i q ref)"
      obtain x r' where eb: "eval_block w q ref ?r = (x, r')"
        by (cases "eval_block w q ref ?r")
      have k: "id' r' = i \<and> question r' = q \<and> reference_answer r' = ref"
        using eval_block_identity[OF eb] by (simp add: after_chatbase_def new_result_def)
      show ?thesis
        using k by (cases x) (simp_all add: process_item_eval[OF None stt Inr] eb)
    qed
  qed
qed

lemma process_item_success:
  assumes "tts_call w od i q lc = None" "stt_call w od i q ph sp lc = Inr stt_raw"
    "ask_chatbase w (query_text sp (normalize_text (Some stt_raw))) = Inr cb"
    "ref \<noteq> []"
    "evaluate_answer_with_llm w q ref (answer_text cb) = Inr d"
    "er_score d = Some sc" "er_reason d = Some rsn"
  shows "status (process_item w od i q ref ph sp lc) = ''success''"
    "score (process_item w od i q ref ph sp lc) = sc"
    "reason (process_item w od i q ref ph sp lc) = rsn"
    "total_latency (process_item w od i q ref ph sp lc) = perf_counter w 9 - perf_counter w 0"
  using assms(4-7)
  by (simp_all add: process_item_eval[OF assms(1-3)] eval_block_def after_chatbase_fields)

text \<open>The three items of the example run, evaluated.\<close>

lemma world_ok_calls:
  "tts_call world_ok od i q lc = None"
  "stt_call world_ok od i q ph sp lc = Inr ''What do lions eat''"
  "ask_chatbase world_ok x = Inr \<lparr> answer_text = ''Lions eat meat.'', conversation_id = None \<rparr>"
  by (simp_all add: tts_call_def stt_call_def world_ok_def)

lemma world_score_100_calls:
  "tts_call world_score_100 od i q lc = None"
  "stt_call world_score_100 od i q ph sp lc = Inr ''What do lions eat''"
  "ask_chatbase world_score_100 x
     = Inr \<lparr> answer_text = ''Lions eat meat.'', conversation_id = None \<rparr>"
  "perf_counter world_score_100 = real"
  by (simp_all add: tts_call_def stt_call_def world_score_100_def world_ok_def)

lemma world_score_100_eval:
  "evaluate_answer_with_llm world_score_100 q ref a
     = Inr \<lparr> er_is_correct = Some True, er_score = Some 100,
             er_reason = Some ''Exact match.'' \<rparr>"
proof -
  have k: "require_env world_score_100 ''OPENAI_API_KEY'' = Inr ''sk-test''"
    by (rule key_of_update) (simp add: world_score_100_def)
  have "judge_call world_score_100 p
     = Inr \<lparr> er_is_correct = Some True, er_score = Some 100,
             er_reason = Some ''Exact match.'' \<rparr>" for p
    by (simp add: judge_call_def world_score_100_def world_ok_def judge_reply_text_def dq_def)
  then show ?thesis by (simp add: evaluate_answer_with_llm_def k)
qed

lemma world_tts_fails_call:
  "tts_call world_tts_fails od i q lc = Some (Exn ''RuntimeError'' ''Speech synthesis canceled'')"
  "perf_counter world_tts_fails = real"
  by (simp_all add: tts_call_def world_tts_fails_def world_ok_def)

lemma example_results:
  "item_results worlds3 [] ''google'' items3 =
     [process_item world_ok ''audio'' 1 ''What do lions eat?'' ''Meat'' (Some []) ''google'' ''zh-TW'',
      process_item world_score_100 ''audio'' 2 ''What do pandas eat?'' ''Bamboo'' (Some []) ''google'' ''zh-TW'',
      process_item world_tts_fails ''audio'' 3 ''Where do koalas live?'' ''Australia'' (Some []) ''google'' ''zh-TW'']"
  by (simp add: item_results_def item_result_def items3_def worlds3_def upt_rec)

lemma example_first:
  "status (process_item world_ok ''audio'' 1 ''What do lions eat?'' ''Meat'' (Some []) ''google'' ''zh-TW'') = ''success''"
  "score (process_item world_ok ''audio'' 1 ''What do lions eat?'' ''Meat'' (Some []) ''google'' ''zh-TW'') = 80"
  "total_latency (process_item world_ok ''audio'' 1 ''What do lions eat?'' ''Meat'' (Some []) ''google'' ''zh-TW'') = 9"
proof -
  note s = process_item_success[OF world_ok_calls _ world_ok_eval]
  show "status (process_item world_ok ''audio'' 1 ''What do lions eat?'' ''Meat'' (Some []) ''google'' ''zh-TW'') = ''success''"
    by (rule s(1)) simp_all
  show "score (process_item world_ok ''audio'' 1 ''What do lions eat?'' ''Meat'' (Some []) ''google'' ''zh-TW'') = 80"
    by (rule s(2)) simp_all
  have "total_latency (process_item world_ok ''audio'' 1 ''What do lions eat?'' ''Meat'' (Some []) ''google'' ''zh-TW'')
          = perf_counter world_ok 9 - perf_counter world_ok 0"
    by (rule s(4)) simp_all
  then show "total_latency (process_item world_ok ''audio'' 1 ''What do lions eat?'' ''Meat'' (Some []) ''google'' ''zh-TW'') = 9"
    by (simp add: world_ok_clock)
qed

lemma example_second:
  "status (process_item world_score_100 ''audio'' 2 ''What do pandas eat?'' ''Bamboo'' (Some []) ''google'' ''zh-TW'') = ''success''"
  "score (process_item world_score_100 ''audio'' 2 ''What do pandas eat?'' ''Bamboo'' (Some []) ''google'' ''zh-TW'') = 100"
  "total_latency (process_item world_score_100 ''audio'' 2 ''What do pandas eat?'' ''Bamboo'' (Some []) ''google'' ''zh-TW'') = 9"
proof -
  note s = process_item_success[OF world_score_100_calls(1-3) _ world_score_100_eval]
  show "status (process_item world_score_100 ''audio'' 2 ''What do pandas eat?'' ''Bamboo'' (Some []) ''google'' ''zh-TW'') = ''success''"
    by (rule s(1)) simp_all
  show "score (process_item world_score_100 ''audio'' 2 ''What do pandas eat?'' ''Bamboo'' (Some []) ''google'' ''zh-TW'') = 100"
    by (rule s(2)) simp_all
  have "total_latency (process_item world_score_100 ''audio'' 2 ''What do pandas eat?'' ''Bamboo'' (Some []) ''google'' ''zh-TW'')
          = perf_counter world_score_100 9 - perf_counter world_score_100 0"
    by (rule s(4)) simp_all
  then show "total_latency (process_item world_score_100 ''audio'' 2 ''What do pandas eat?'' ''Bamboo'' (Some []) ''google'' ''zh-TW'') = 9"
    by (simp add: world_score_100_calls(4))
qed

lemma example_third:
  "status (process_item world_tts_fails ''audio'' 3 ''Where do koalas live?'' ''Australia'' (Some []) ''google'' ''zh-TW'') = ''error''"
  "score (process_item world_tts_fails ''audio'' 3 ''Where do koalas live?'' ''Australia'' (Some []) ''google'' ''zh-TW'') = 0"
  "total_latency (process_item world_tts_fails ''audio'' 3 ''Where do koalas live?'' ''Australia'' (Some []) ''google'' ''zh-TW'') = 2"
  by (simp_all add: process_item_tts_fails[OF world_tts_fails_call(1)] new_result_def
      world_tts_fails_call(2))

lemma example_sums:
  "success_score_sum (take (Suc 0) (item_results worlds3 [] ''google'' items3)) = 80"
  "success_score_sum (take (Suc (Suc 0)) (item_results worlds3 [] ''google'' items3)) = 180"
  "success_score_sum (take (Suc (Suc (Suc 0))) (item_results worlds3 [] ''google'' items3)) = 180"
  "success_latency_sum (take (Suc 0) (item_results worlds3 [] ''google'' items3)) = 9"
  "success_latency_sum (take (Suc (Suc 0)) (item_results worlds3 [] ''google'' items3)) = 18"
  "success_latency_sum (take (Suc (Suc (Suc 0))) (item_results worlds3 [] ''google'' items3)) = 18"
  by (simp_all add: example_results success_score_sum_def success_latency_sum_def
      example_first example_second example_third)

lemma example_run:
  "websocket_endpoint socket_ok worlds3 [] ''google'' [] =
     \<lparr> run_sent = map (update_message 3 (item_results worlds3 [] ''google'' items3)) [0..<3]
                    @ [MsgComplete],
       run_results = item_results worlds3 [] ''google'' items3, run_raised = None \<rparr>"
proof -
  have wf: "\<forall>item \<in> set items3. well_formed item"
    by (simp add: items3_def well_formed_def)
  have "websocket_endpoint socket_ok worlds3 [] ''google'' [] =
     \<lparr> run_sent = map (update_message (int (length items3))
                         (item_results worlds3 [] ''google'' items3)) [0..<length items3]
                    @ [MsgComplete],
       run_results = [] @ item_results worlds3 [] ''google'' items3, run_raised = None \<rparr>"
    by (rule endpoint_run_complete[OF _ _ _ wf _ refl]) (simp_all add: socket_ok_def items3_def)
  moreover have "length items3 = 3" by (simp add: items3_def)
  ultimately show ?thesis by simp
qed

lemma example_averages:
  "map avg_score_of (run_sent (websocket_endpoint socket_ok worlds3 [] ''google'' []))
     = [Some 80, Some 90, Some 60, None]"
  "map avg_latency_of (run_sent (websocket_endpoint socket_ok worlds3 [] ''google'' []))
     = [Some 9, Some 9, Some 6, None]"
  by (simp_all add: example_run upt_rec avg_score_of_def avg_latency_of_def update_message_def
      make_stats_def example_sums)

lemma example_claimed:
  "claimed_avg_score (item_results worlds3 [] ''google'' items3) = 90"
  "claimed_avg_latency (item_results worlds3 [] ''google'' items3) = 9"
  by (simp_all add: example_results claimed_avg_score_def claimed_avg_latency_def
      example_first example_second example_third)

text \<open>
  Claim C2. The claim is that the \<open>avg_score\<close> and \<open>avg_latency\<close> pushed after each item
  are the means of \<open>score\<close> and \<open>total_latency\<close> over the items whose status is
  \<open>"success"\<close>, so that the scores 80, 100 and a failure give the average 90. The endpoint
  does not compute that: it adds up the successful items only, and divides by the number
  of all items processed. In the run below the first two items succeed, with the scores
  80 and 100 and a latency of 9 each, and the synthesis of the third raises. After the
  third item the endpoint sends the averages 60 and 6, where the means over the two
  successful items are 90 and 9; the endpoint raises nothing.
\<close>

theorem streaming_stats_three_items:
  "map status (run_results (websocket_endpoint socket_ok worlds3 [] ''google'' []))
     = [''success'', ''success'', ''error'']
   \<and> map score (run_results (websocket_endpoint socket_ok worlds3 [] ''google'' []))
     = [80, 100, 0]
   \<and> map total_latency (run_results (websocket_endpoint socket_ok worlds3 [] ''google'' []))
     = [9, 9, 2]
   \<and> map avg_score_of (run_sent (websocket_endpoint socket_ok worlds3 [] ''google'' []))
     = [Some 80, Some 90, Some 60, None]
   \<and> map avg_latency_of (run_sent (websocket_endpoint socket_ok worlds3 [] ''google'' []))
     = [Some 9, Some 9, Some 6, None]
   \<and> claimed_avg_score (run_results (websocket_endpoint socket_ok worlds3 [] ''google'' [])) = 90
   \<and> claimed_avg_latency (run_results (websocket_endpoint socket_ok worlds3 [] ''google'' [])) = 9
   \<and> run_raised (websocket_endpoint socket_ok worlds3 [] ''google'' []) = None"
proof -
  have rr: "run_results (websocket_endpoint socket_ok worlds3 [] ''google'' [])
          = item_results worlds3 [] ''google'' items3"
    by (simp add: example_run)
  have "run_raised (websocket_endpoint socket_ok worlds3 [] ''google'' []) = None"
    by (simp add: example_run)
  moreover have
    "claimed_avg_score (run_results (websocket_endpoint socket_ok worlds3 [] ''google'' [])) = 90"
    "claimed_avg_latency (run_results (websocket_endpoint socket_ok worlds3 [] ''google'' [])) = 9"
    unfolding rr by (rule example_claimed)+
  moreover have
    "map status (run_results (websocket_endpoint socket_ok worlds3 [] ''google'' []))
       = [''success'', ''success'', ''error'']"
    "map score (run_results (websocket_endpoint socket_ok worlds3 [] ''google'' []))
       = [80, 100, 0]"
    "map total_latency (run_results (websocket_endpoint socket_ok worlds3 [] ''google'' []))
       = [9, 9, 2]"
    unfolding rr
    by (simp_all add: example_results example_first example_second example_third)
  ultimately show ?thesis
    by (simp only: example_averages simp_thms)
qed

text \<open>
  Claim C7. In streaming mode, for a non-empty list of \<open>N\<close> items that each have their
  three keys, on a connection that accepts and takes every message, the endpoint sends
  exactly \<open>N\<close> messages of type \<open>update\<close>, the \<open>k\<close>-th carrying the result and the id of
  the \<open>k\<close>-th item, followed by exactly one message of type \<open>complete\<close>, and no
  exception leaves it. This holds whether or not the pipeline reports errors for items.
\<close>

theorem streaming_updates_then_complete:
  assumes acc: "ws_accept sock = None"
    and recv: "ws_receive_json sock = Inr (RecvDict (Some items))"
    and ne: "items \<noteq> []"
    and wf: "\<forall>item \<in> set items. well_formed item"
    and snd: "\<forall>h m. ws_send_json sock h m = None"
  shows "\<exists>updates.
           run_sent (websocket_endpoint sock worlds hints provider results0) = updates @ [MsgComplete]
           \<and> length updates = length items
           \<and> (\<forall>k < length items.
                 \<exists>rj st. updates ! k = MsgUpdate rj st
                   \<and> rj = result_json_of (item_result worlds hints provider k (items ! k))
                   \<and> Some (r_id rj) = item_id (items ! k))
           \<and> run_raised (websocket_endpoint sock worlds hints provider results0) = None"
proof -
  let ?rs = "item_results worlds hints provider items"
  let ?ups = "map (update_message (int (length items)) ?rs) [0..<length items]"
  note run = endpoint_run_complete[OF acc recv ne wf snd refl, of worlds hints provider results0]
  have each: "\<exists>rj st. ?ups ! k = MsgUpdate rj st
                   \<and> rj = result_json_of (item_result worlds hints provider k (items ! k))
                   \<and> Some (r_id rj) = item_id (items ! k)" if k: "k < length items" for k
  proof -
    have "well_formed (items ! k)" using wf k by simp
    then obtain iid where i: "item_id (items ! k) = Some iid"
      by (auto simp: well_formed_def)
    have "id' (item_result worlds hints provider k (items ! k)) = iid"
      by (simp add: item_result_def process_item_identity i)
    then show ?thesis
      using k by (simp add: update_message_def nth_item_results result_json_of_def i)
  qed
  have "run_sent (websocket_endpoint sock worlds hints provider results0) = ?ups @ [MsgComplete]"
    "length ?ups = length items"
    "run_raised (websocket_endpoint sock worlds hints provider results0) = None"
    by (simp_all add: run)
  then show ?thesis using each by blast
qed

theorem streaming_updates_then_complete_witness:
  "length (run_sent (websocket_endpoint socket_ok worlds3 [] ''google'' [])) = 4
   \<and> last (run_sent (websocket_endpoint socket_ok worlds3 [] ''google'' [])) = MsgComplete
   \<and> is_update (run_sent (websocket_endpoint socket_ok worlds3 [] ''google'' []) ! 0)
   \<and> is_update (run_sent (websocket_endpoint socket_ok worlds3 [] ''google'' []) ! 2)
   \<and> run_raised (websocket_endpoint socket_ok worlds3 [] ''google'' []) = None"
proof -
  have acc: "ws_accept socket_ok = None"
    and recv: "ws_receive_json socket_ok = Inr (RecvDict (Some items3))"
    and snd: "\<forall>h m. ws_send_json socket_ok h m = None"
    by (simp_all add: socket_ok_def)
  have ne: "items3 \<noteq> []" and wf: "\<forall>item \<in> set items3. well_formed item"
    and len: "length items3 = 3"
    by (simp_all add: items3_def well_formed_def)
  from streaming_updates_then_complete[OF acc recv ne wf snd, of worlds3 "[]" "''google''" "[]"]
  obtain updates where s: "run_sent (websocket_endpoint socket_ok worlds3 [] ''google'' [])
      = updates @ [MsgComplete]"
    and l: "length updates = 3"
    and u: "\<forall>k < 3. \<exists>rj st. updates ! k = MsgUpdate rj st"
    and r: "run_raised (websocket_endpoint socket_ok worlds3 [] ''google'' []) = None"
    unfolding len by blast
  have "\<exists>rj st. updates ! 0 = MsgUpdate rj st" "\<exists>rj st. updates ! 2 = MsgUpdate rj st"
    using u by simp_all
  then have "is_update (updates ! 0)" "is_update (updates ! 2)"
    by (auto simp: is_update_def)
  then show ?thesis using s l r by (simp add: nth_append)
qed

end
